theory Spec2Isabelle
  imports Main "HOL-Library.AList" "HOL-Library.Word"
begin

section \<open>Go maps\<close>

text \<open>
  A Go map is modelled as an association list with distinct keys. An assignment
  \<^verbatim>\<open>m[k] = v\<close> is \<open>AList.update k v m\<close>: it overwrites the entry of an existing key and
  adds a new entry otherwise. \<open>map_of m k\<close> is the lookup \<^verbatim>\<open>m[k]\<close>, \<open>length m\<close> is
  \<^verbatim>\<open>len(m)\<close>.
\<close>

text \<open>
  \<^verbatim>\<open>maps.EqualFunc(m1, m2, eq)\<close> of the Go standard library: the two maps have the same
  number of entries, and every key of \<open>m1\<close> is a key of \<open>m2\<close> whose value is related by
  \<open>eq\<close>. \<^verbatim>\<open>maps.Equal\<close> is the instance where \<open>eq\<close> is \<^verbatim>\<open>==\<close>.
\<close>

definition maps_EqualFunc ::
  "('v \<Rightarrow> 'w \<Rightarrow> bool) \<Rightarrow> ('k \<times> 'v) list \<Rightarrow> ('k \<times> 'w) list \<Rightarrow> bool" where
  "maps_EqualFunc eq m1 m2 =
     (if length m1 \<noteq> length m2 then False
      else list_all (\<lambda>(k, v1). case map_of m2 k of
                                   None \<Rightarrow> False
                                 | Some v2 \<Rightarrow> eq v1 v2) m1)"

definition maps_Equal :: "('k \<times> 'v) list \<Rightarrow> ('k \<times> 'v) list \<Rightarrow> bool" where
  "maps_Equal m1 m2 = maps_EqualFunc (=) m1 m2"

section \<open>Go slices\<close>

text \<open>
  A slice is nil or holds a sequence of elements, which may be empty. \<^verbatim>\<open>len\<close> and \<^verbatim>\<open>range\<close>
  treat a nil slice as an empty one (\<open>elements\<close>), \<^verbatim>\<open>reflect.DeepEqual\<close> does not: a nil
  slice and an empty slice are not deeply equal.
\<close>

datatype 'x slice = NilSlice | Slice "'x list"

definition elements :: "'x slice \<Rightarrow> 'x list" where
  "elements s = (case s of NilSlice \<Rightarrow> [] | Slice xs \<Rightarrow> xs)"

lemma elements_simps [simp]: "elements NilSlice = []" "elements (Slice xs) = xs"
  by (simp_all add: elements_def)

section \<open>Failures\<close>

text \<open>
  A Go function of the program returns a value, returns an error, or panics. The panics
  are the explicit \<^verbatim>\<open>panic\<close> of isolation pruning, a nil pointer dereference, and what code
  outside the sources at hand (node adaptors, the repository) may raise. The errors are
  those the modelled functions construct, those they receive from outside (\<open>External\<close>),
  and a recovered panic (\<^verbatim>\<open>safego.NewPanicErr\<close>).
\<close>

datatype panic =
    NilPointerDereference
  | NodeNotExisted string
  | IndexOutOfRange
  | ExternalPanic string

datatype error =
    NestedInnerWorkflow
  | InnerNodeHasEdges
  | BatchOutputCount nat
  | BatchOutputNotList string
  | BatchOutputSchemaNotVariable error
  | BatchOutputElementNotObject string
  | BatchOutputFieldsNotVariables error
  | NodeNotInNodeMap string
  | InvalidPortName string
  | UnsupportedBlockType string
  | DataOnErrNotSpecified
  | ParseWorkflowIDFailed string
  | WorkflowIDEmpty
  | WorkflowIDNotNumber string
  | SerializationFail error
  | IDGenError error
  | RecordNotFound
  | VersionNotIncremental string string
  | TestRunRequired int
  | StartNodeNotFound
  | External string
  | PanicErr panic

datatype 'r outcome = Return 'r | Fail error | Panic panic

section \<open>The compiled schema (package schema)\<close>

text \<open>
  Node keys (\<^verbatim>\<open>vo.NodeKey\<close>) are strings. Values whose structure the modelled functions
  never inspect (node configs, type maps, literal values, branch schemas) live in one
  opaque type \<open>'a\<close>; \<^verbatim>\<open>reflect.DeepEqual\<close> on them is equality in \<open>'a\<close>.
\<close>

record Connection =
  FromNode :: string
  ToNode :: string
  FromPort :: "string option"

text \<open>\<^verbatim>\<open>Connection.ID\<close>: the two or three components joined by colons.\<close>

definition Connection_ID :: "Connection \<Rightarrow> string" where
  "Connection_ID c =
     (case FromPort c of
        Some p \<Rightarrow> FromNode c @ '':'' @ ToNode c @ '':'' @ p
      | None \<Rightarrow> FromNode c @ '':'' @ ToNode c)"

text \<open>
  The types of package vo that a node schema refers to are declared outside the sources
  at hand; the records hold the fields the sources read. A pointer is an option (\<open>None\<close>
  is nil), a slice is a \<open>slice\<close>, and a value of type \<^verbatim>\<open>any\<close> is an option of an opaque
  value (\<open>None\<close> is the nil interface).
\<close>

record Reference =
  FromNodeKey :: string
  FromPath :: "string slice"

record FileExtra =
  FileName :: "string option"
  FileNames :: "string slice"

record 'a FieldSource =
  Ref :: "Reference option"
  Val :: "'a option"
  FileExtra :: "FileExtra option"

record 'a FieldInfo =
  Path :: "string slice"
  Source :: "'a FieldSource"

record StreamConfig =
  CanGeneratesStream :: bool
  RequireStreamingInput :: bool

record ExceptionConfig =
  TimeoutMS :: int
  MaxRetry :: int
  DataOnErr :: string
  ProcessType :: "int option"

record WorkflowBasic =
  BasicID :: int
  BasicVersion :: string
  BasicSpaceID :: int
  BasicAppID :: "int option"
  BasicCommitID :: string

text \<open>
  \<^verbatim>\<open>NodeSchema\<close> and \<^verbatim>\<open>WorkflowSchema\<close> refer to each other (a sub-workflow node embeds
  the schema of the workflow it calls), so they are one mutually recursive datatype. The
  fields \<open>requireCheckPoint\<close>, \<open>requireStreaming\<close> and \<open>historyRounds\<close> are the values
  cached by \<^verbatim>\<open>Init\<close>, and \<open>once\<close> tells whether \<^verbatim>\<open>Init\<close> has run (the \<^verbatim>\<open>sync.Once\<close>);
  \<^verbatim>\<open>nodeMap\<close> and \<^verbatim>\<open>compositeNodes\<close> are recomputed where needed.
\<close>

datatype 'a NodeSchema = NodeSchema
  (Key: string)
  (Type: string)
  (Name: string)
  (Configs: 'a)
  (InputTypes: 'a)
  (InputSources: "'a FieldInfo slice")
  (OutputTypes: 'a)
  (OutputSources: "'a FieldInfo slice")
  (ExceptionConfigs: "ExceptionConfig option")
  (StreamConfigs: "StreamConfig option")
  (SubWorkflowBasic: "WorkflowBasic option")
  (SubWorkflowSchema: "'a WorkflowSchema option")
and 'a WorkflowSchema = WorkflowSchema
  (Nodes: "'a NodeSchema list")
  (Connections: "Connection list")
  (Hierarchy: "(string \<times> string) list")
  (Branches: "(string \<times> 'a) list")
  (GeneratedNodes: "string list")
  (requireCheckPoint: bool)
  (requireStreaming: bool)
  (historyRounds: int)
  (once: bool)

subsection \<open>\<^verbatim>\<open>WorkflowSchema.IsEqual\<close>\<close>

text \<open>The set of connection ids, built as the keys of a \<^verbatim>\<open>map[string]bool\<close>.\<close>

definition connectionsMapOf :: "Connection list \<Rightarrow> (string \<times> bool) list" where
  "connectionsMapOf cs = fold (\<lambda>c m. AList.update (Connection_ID c) True m) cs []"

text \<open>The node map: a later node overwrites an earlier node with the same key.\<close>

definition nodeMapOf :: "'a NodeSchema list \<Rightarrow> (string \<times> 'a NodeSchema) list" where
  "nodeMapOf ns = fold (\<lambda>n m. AList.update (Key n) n m) ns []"

text \<open>
  The comparison closure passed to \<^verbatim>\<open>maps.EqualFunc\<close>, check by check.
  \<^verbatim>\<open>reflect.DeepEqual\<close> compares two values of one type by their contents: a pointer by what
  it points to (two nil pointers are equal, nil and non-nil are not), a struct field by
  field, a slice by being nil or not, by length and element by element, a string or an
  integer by \<^verbatim>\<open>==\<close>. On the values as they are represented here (options for pointers,
  \<open>slice\<close> for slices, records for structs) that is equality; on an opaque value of type
  \<open>'a\<close> equality stands for \<^verbatim>\<open>reflect.DeepEqual\<close> on what it represents.
\<close>

definition nodeEqual :: "'a NodeSchema \<Rightarrow> 'a NodeSchema \<Rightarrow> bool" where
  "nodeEqual node other =
     (if Name node \<noteq> Name other then False
      else if Configs node \<noteq> Configs other then False
      else if InputTypes node \<noteq> InputTypes other then False
      else if InputSources node \<noteq> InputSources other then False
      else if OutputTypes node \<noteq> OutputTypes other then False
      else if OutputSources node \<noteq> OutputSources other then False
      else if ExceptionConfigs node \<noteq> ExceptionConfigs other then False
      else if SubWorkflowBasic node \<noteq> SubWorkflowBasic other then False
      else True)"

definition IsEqual :: "'a WorkflowSchema \<Rightarrow> 'a WorkflowSchema \<Rightarrow> bool" where
  "IsEqual w other =
     (let otherConnectionsMap = connectionsMapOf (Connections other);
          connectionsMap = connectionsMapOf (Connections w)
      in if \<not> maps_Equal otherConnectionsMap connectionsMap then False
         else let otherNodeMap = nodeMapOf (Nodes other);
                  nodeMap = nodeMapOf (Nodes w)
              in if \<not> maps_EqualFunc nodeEqual otherNodeMap nodeMap then False
                 else True)"

text \<open>
  The specification's side of the comparison. Two nodes agree when the eight compared
  fields coincide; the node map of a schema sends a key to the last node of \<open>Nodes\<close>
  carrying it; \<open>comparedPart\<close> erases everything \<open>IsEqual\<close> is said to ignore.
\<close>

definition agreeOn :: "'a NodeSchema \<Rightarrow> 'a NodeSchema \<Rightarrow> bool" where
  "agreeOn n m \<longleftrightarrow>
     Name n = Name m \<and> Configs n = Configs m \<and>
     InputTypes n = InputTypes m \<and> InputSources n = InputSources m \<and>
     OutputTypes n = OutputTypes m \<and> OutputSources n = OutputSources m \<and>
     ExceptionConfigs n = ExceptionConfigs m \<and> SubWorkflowBasic n = SubWorkflowBasic m"

definition nodeAt :: "'a WorkflowSchema \<Rightarrow> string \<Rightarrow> 'a NodeSchema option" where
  "nodeAt w k = map_of (rev (map (\<lambda>n. (Key n, n)) (Nodes w))) k"

definition connectionIDs :: "'a WorkflowSchema \<Rightarrow> string set" where
  "connectionIDs w = Connection_ID ` set (Connections w)"

definition comparedNode :: "'a NodeSchema \<Rightarrow> 'a NodeSchema" where
  "comparedNode n =
     NodeSchema (Key n) [] (Name n) (Configs n) (InputTypes n) (InputSources n)
       (OutputTypes n) (OutputSources n) (ExceptionConfigs n) None (SubWorkflowBasic n) None"

definition comparedPart :: "'a WorkflowSchema \<Rightarrow> 'a WorkflowSchema" where
  "comparedPart w =
     WorkflowSchema (map comparedNode (Nodes w)) (Connections w) [] [] [] False False 0 False"


subsection \<open>Lemmas on Go maps\<close>

lemma map_of_fold_update:
  "map_of (fold (\<lambda>x m. AList.update (f x) (g x) m) xs m0) k =
     (case map_of (rev (map (\<lambda>x. (f x, g x)) xs)) k of
        Some v \<Rightarrow> Some v | None \<Rightarrow> map_of m0 k)"
proof (induction xs arbitrary: m0)
  case Nil
  show ?case by simp
next
  case (Cons x xs)
  show ?case
    by (simp add: Cons.IH update_conv' map_add_def split: option.splits)
qed

lemma distinct_fold_update:
  "distinct (map fst m0) \<Longrightarrow>
   distinct (map fst (fold (\<lambda>x m. AList.update (f x) (g x) m) xs m0))"
  by (induction xs arbitrary: m0) (simp_all add: distinct_update)

lemma maps_EqualFunc_iff:
  assumes d1: "distinct (map fst m1)" and d2: "distinct (map fst m2)"
  shows "maps_EqualFunc eq m1 m2 \<longleftrightarrow> (\<forall>k. rel_option eq (map_of m1 k) (map_of m2 k))"
proof
  assume E: "maps_EqualFunc eq m1 m2"
  then have len: "length m1 = length m2"
    and all: "\<forall>(k, v1) \<in> set m1. case map_of m2 k of None \<Rightarrow> False | Some v2 \<Rightarrow> eq v1 v2"
    by (auto simp: maps_EqualFunc_def list_all_iff split: if_splits)
  have sub: "fst ` set m1 \<subseteq> fst ` set m2"
  proof
    fix k assume "k \<in> fst ` set m1"
    then obtain v where "(k, v) \<in> set m1" by auto
    with all have "map_of m2 k \<noteq> None" by (auto split: option.splits)
    then show "k \<in> fst ` set m2" by (simp add: map_of_eq_None_iff)
  qed
  have c1: "card (fst ` set m1) = length m1"
    using d1 by (metis distinct_card length_map set_map)
  have c2: "card (fst ` set m2) = length m2"
    using d2 by (metis distinct_card length_map set_map)
  have eqk: "fst ` set m1 = fst ` set m2"
    using sub c1 c2 len by (simp add: card_subset_eq)
  show "\<forall>k. rel_option eq (map_of m1 k) (map_of m2 k)"
  proof
    fix k
    show "rel_option eq (map_of m1 k) (map_of m2 k)"
    proof (cases "map_of m1 k")
      case None
      then have "k \<notin> fst ` set m1" by (simp add: map_of_eq_None_iff)
      then have "map_of m2 k = None" using eqk by (simp add: map_of_eq_None_iff)
      with None show ?thesis by simp
    next
      case (Some v)
      then have "(k, v) \<in> set m1" by (rule map_of_SomeD)
      with all show ?thesis using Some by (auto split: option.splits)
    qed
  qed
next
  assume R: "\<forall>k. rel_option eq (map_of m1 k) (map_of m2 k)"
  have eqk: "fst ` set m1 = fst ` set m2"
  proof -
    have "\<And>k. (map_of m1 k = None) = (map_of m2 k = None)"
      using R by (metis option.rel_distinct(1) option.rel_distinct(2) option.exhaust)
    then show ?thesis by (simp add: map_of_eq_None_iff set_eq_iff)
  qed
  have c1: "card (fst ` set m1) = length m1"
    using d1 by (metis distinct_card length_map set_map)
  have c2: "card (fst ` set m2) = length m2"
    using d2 by (metis distinct_card length_map set_map)
  have len: "length m1 = length m2" using eqk c1 c2 by simp
  have "\<forall>(k, v1) \<in> set m1. case map_of m2 k of None \<Rightarrow> False | Some v2 \<Rightarrow> eq v1 v2"
  proof (clarify)
    fix k v1 assume "(k, v1) \<in> set m1"
    then have "map_of m1 k = Some v1" using d1 by simp
    with R[rule_format, of k] show "case map_of m2 k of None \<Rightarrow> False | Some v2 \<Rightarrow> eq v1 v2"
      by (auto simp: option_rel_Some1)
  qed
  with len show "maps_EqualFunc eq m1 m2"
    by (simp add: maps_EqualFunc_def list_all_iff)
qed


lemma map_of_const_pairs:
  "map_of (map (\<lambda>x. (f x, c)) xs) k = (if k \<in> f ` set xs then Some c else None)"
  by (induction xs) auto

lemma map_of_connectionsMapOf:
  "map_of (connectionsMapOf cs) k =
     (if k \<in> Connection_ID ` set cs then Some True else None)"
proof -
  have "map_of (rev (map (\<lambda>c. (Connection_ID c, True)) cs)) k =
          (if k \<in> Connection_ID ` set cs then Some True else None)"
    using map_of_const_pairs [of Connection_ID True "rev cs" k] by (simp add: rev_map)
  then show ?thesis
    by (simp add: connectionsMapOf_def map_of_fold_update)
qed

lemma distinct_connectionsMapOf: "distinct (map fst (connectionsMapOf cs))"
  by (simp add: connectionsMapOf_def distinct_fold_update)

lemma map_of_nodeMapOf:
  "map_of (nodeMapOf ns) k = map_of (rev (map (\<lambda>n. (Key n, n)) ns)) k"
  by (simp add: nodeMapOf_def map_of_fold_update split: option.splits)

lemma distinct_nodeMapOf: "distinct (map fst (nodeMapOf ns))"
  by (simp add: nodeMapOf_def distinct_fold_update)

lemma nodeEqual_agreeOn: "nodeEqual n m = agreeOn n m"
  by (simp add: nodeEqual_def agreeOn_def)

lemma agreeOn_sym: "agreeOn n m = agreeOn m n"
  by (auto simp: agreeOn_def)

lemma connections_maps_Equal:
  "maps_Equal (connectionsMapOf cs) (connectionsMapOf ds) \<longleftrightarrow>
     Connection_ID ` set cs = Connection_ID ` set ds"
proof -
  have "maps_Equal (connectionsMapOf cs) (connectionsMapOf ds) \<longleftrightarrow>
          (\<forall>k. rel_option (=) (map_of (connectionsMapOf cs) k) (map_of (connectionsMapOf ds) k))"
    unfolding maps_Equal_def
    by (rule maps_EqualFunc_iff) (rule distinct_connectionsMapOf)+
  also have "\<dots> \<longleftrightarrow> (\<forall>k. (k \<in> Connection_ID ` set cs) = (k \<in> Connection_ID ` set ds))"
    by (auto simp: map_of_connectionsMapOf option.rel_eq)
  also have "\<dots> \<longleftrightarrow> Connection_ID ` set cs = Connection_ID ` set ds"
    by blast
  finally show ?thesis .
qed

lemma nodes_maps_EqualFunc:
  "maps_EqualFunc nodeEqual (nodeMapOf (Nodes other)) (nodeMapOf (Nodes w)) \<longleftrightarrow>
     (\<forall>k. rel_option agreeOn (nodeAt w k) (nodeAt other k))"
proof -
  have "maps_EqualFunc nodeEqual (nodeMapOf (Nodes other)) (nodeMapOf (Nodes w)) \<longleftrightarrow>
          (\<forall>k. rel_option nodeEqual (map_of (nodeMapOf (Nodes other)) k)
                                     (map_of (nodeMapOf (Nodes w)) k))"
    by (rule maps_EqualFunc_iff) (rule distinct_nodeMapOf)+
  also have "\<dots> \<longleftrightarrow> (\<forall>k. rel_option agreeOn (nodeAt other k) (nodeAt w k))"
    by (simp add: map_of_nodeMapOf nodeAt_def nodeEqual_agreeOn [abs_def])
  also have "\<dots> \<longleftrightarrow> (\<forall>k. rel_option agreeOn (nodeAt w k) (nodeAt other k))"
  proof -
    have "rel_option agreeOn x y = rel_option agreeOn y x" for x y :: "'a NodeSchema option"
      by (cases x; cases y) (simp_all add: agreeOn_sym)
    then show ?thesis by blast
  qed
  finally show ?thesis .
qed

lemma IsEqual_iff:
  "IsEqual w other \<longleftrightarrow>
     connectionIDs w = connectionIDs other \<and>
     (\<forall>k. rel_option agreeOn (nodeAt w k) (nodeAt other k))"
  unfolding IsEqual_def Let_def
  by (auto simp: connections_maps_Equal nodes_maps_EqualFunc connectionIDs_def)

lemma nodeAt_comparedPart: "nodeAt (comparedPart w) k = map_option comparedNode (nodeAt w k)"
proof -
  have "map_of (map (\<lambda>n. (Key n, n)) (map comparedNode ns)) k =
          map_option comparedNode (map_of (map (\<lambda>n. (Key n, n)) ns) k)" for ns :: "'a NodeSchema list"
    by (induction ns) (simp_all add: comparedNode_def)
  from this [of "rev (Nodes w)"] show ?thesis
    by (simp add: nodeAt_def comparedPart_def rev_map)
qed

lemma agreeOn_comparedNode: "agreeOn (comparedNode n) (comparedNode m) = agreeOn n m"
  by (simp add: agreeOn_def comparedNode_def)

lemma IsEqual_comparedPart: "IsEqual (comparedPart w) (comparedPart other) = IsEqual w other"
proof -
  have "rel_option agreeOn (map_option comparedNode x) (map_option comparedNode y) =
          rel_option agreeOn x y" for x y :: "'a NodeSchema option"
    by (cases x; cases y) (simp_all add: agreeOn_comparedNode)
  moreover have "connectionIDs (comparedPart v) = connectionIDs v" for v :: "'a WorkflowSchema"
    by (simp add: connectionIDs_def comparedPart_def)
  ultimately show ?thesis
    by (simp add: IsEqual_iff nodeAt_comparedPart)
qed

text \<open>
  C1. \<^verbatim>\<open>IsEqual\<close> is the execution-equivalence of the specification: it returns true
  exactly when the two schemas have the same set of connection ids and their node maps,
  keyed by node key, have the same keys and agree at every key on \<open>Name\<close>, \<open>Configs\<close>,
  \<open>InputTypes\<close>, \<open>InputSources\<close>, \<open>OutputTypes\<close>, \<open>OutputSources\<close>,
  \<open>ExceptionConfigs\<close> and \<open>SubWorkflowBasic\<close>, each compared as \<^verbatim>\<open>reflect.DeepEqual\<close>
  compares it (so nil sources and an empty slice of sources do not agree). No other field
  has any effect: erasing
  the node type, the stream configs, the embedded sub-workflow schema, the hierarchy, the
  branches, the generated node list and the cached values in both schemas leaves the
  result unchanged.
\<close>

theorem IsEqual_execution_equivalence:
  "(IsEqual w other \<longleftrightarrow>
      connectionIDs w = connectionIDs other \<and>
      (\<forall>k. rel_option agreeOn (nodeAt w k) (nodeAt other k))) \<and>
   IsEqual (comparedPart w) (comparedPart other) = IsEqual w other"
  using IsEqual_iff [of w other] IsEqual_comparedPart [of w other] by blast

definition sourcesNode :: "unit FieldInfo slice \<Rightarrow> StreamConfig option \<Rightarrow> unit NodeSchema" where
  "sourcesNode sources streams =
     NodeSchema ''llm'' ''LLM'' ''model'' () () sources () NilSlice None streams None None"

definition sourcesSchema ::
  "unit FieldInfo slice \<Rightarrow> StreamConfig option \<Rightarrow> string list \<Rightarrow> unit WorkflowSchema" where
  "sourcesSchema sources streams generated =
     WorkflowSchema [sourcesNode sources streams]
       [\<lparr>FromNode = ''llm'', ToNode = ''exit'', FromPort = None\<rparr>] [] [] generated False False 0
       False"

text \<open>
  Two schemas that differ in the stream configs of a node and in the generated node list
  are equal for \<^verbatim>\<open>IsEqual\<close>; two schemas whose node has nil input sources in one and an
  empty, non-nil slice of input sources in the other are not.
\<close>

theorem IsEqual_execution_equivalence_witness:
  "IsEqual (sourcesSchema NilSlice None [])
     (sourcesSchema NilSlice (Some \<lparr>CanGeneratesStream = True, RequireStreamingInput = False\<rparr>)
        [''llm'']) \<and>
   \<not> IsEqual (sourcesSchema NilSlice None []) (sourcesSchema (Slice []) None [])"
proof -
  have ids: "connectionIDs (sourcesSchema a b c) = {''llm:exit''}" for a b c
    by (simp add: connectionIDs_def sourcesSchema_def Connection_ID_def)
  have at: "nodeAt (sourcesSchema a b c) k = (if k = ''llm'' then Some (sourcesNode a b) else None)"
    for a b c k
    by (simp add: nodeAt_def sourcesSchema_def sourcesNode_def)
  have agree: "agreeOn (sourcesNode a b) (sourcesNode a' b') \<longleftrightarrow> a = a'" for a b a' b'
    by (simp add: agreeOn_def sourcesNode_def)
  show ?thesis
    using IsEqual_execution_equivalence
            [of "sourcesSchema NilSlice None []"
                "sourcesSchema NilSlice (Some \<lparr>CanGeneratesStream = True, RequireStreamingInput = False\<rparr>)
                   [''llm'']"]
          IsEqual_execution_equivalence
            [of "sourcesSchema NilSlice None []" "sourcesSchema (Slice []) None []"]
    by (simp add: ids at agree)
qed


subsection \<open>\<^verbatim>\<open>WorkflowSchema.doRequireStreaming\<close>\<close>

text \<open>
  The first loop: the keys of the nodes that can generate a stream, and the keys of the
  nodes that require streaming input, each as a \<^verbatim>\<open>map[vo.NodeKey]bool\<close>.
\<close>

definition producersOf :: "'a NodeSchema list \<Rightarrow> (string \<times> bool) list" where
  "producersOf ns =
     fold (\<lambda>node producers.
             case StreamConfigs node of
               None \<Rightarrow> producers
             | Some sc \<Rightarrow> if CanGeneratesStream sc
                         then AList.update (Key node) True producers else producers)
          ns []"

definition consumersOf :: "'a NodeSchema list \<Rightarrow> (string \<times> bool) list" where
  "consumersOf ns =
     fold (\<lambda>node consumers.
             case StreamConfigs node of
               None \<Rightarrow> consumers
             | Some sc \<Rightarrow> if RequireStreamingInput sc
                         then AList.update (Key node) True consumers else consumers)
          ns []"

text \<open>
  The adjacency map \<^verbatim>\<open>map[vo.NodeKey]map[vo.NodeKey]struct{}\<close>. \<open>addEdge\<close> is the body
  of the inner loop: create the inner map when the key is new, then insert.
\<close>

type_synonym adjacency = "(string \<times> (string \<times> unit) list) list"

definition addEdge :: "string \<Rightarrow> string \<Rightarrow> adjacency \<Rightarrow> adjacency" where
  "addEdge from to adj =
     (let adj1 = (case map_of adj from of
                    None \<Rightarrow> AList.update from [] adj
                  | Some _ \<Rightarrow> adj)
      in AList.update from
           (AList.update to () (case map_of adj1 from of None \<Rightarrow> [] | Some m \<Rightarrow> m)) adj1)"

definition buildAdj :: "'a NodeSchema list \<Rightarrow> adjacency" where
  "buildAdj ns =
     fold (\<lambda>node adj.
             fold (\<lambda>source adj.
                     case Ref (Source source) of
                       None \<Rightarrow> adj
                     | Some r \<Rightarrow> if length (FromNodeKey r) > 0
                                then addEdge (FromNodeKey r) (Key node) adj else adj)
                  (elements (InputSources node)) adj)
          ns []"

text \<open>\<^verbatim>\<open>range adj[cur]\<close>: the keys of the inner map, none when \<open>cur\<close> has no entry.\<close>

definition neighbors :: "adjacency \<Rightarrow> string \<Rightarrow> string list" where
  "neighbors adj cur = (case map_of adj cur of None \<Rightarrow> [] | Some m \<Rightarrow> map fst m)"

text \<open>The loop over the neighbours of the current node: mark and enqueue the new ones.\<close>

fun enqueue ::
  "string list \<Rightarrow> string list \<times> (string \<times> bool) list \<Rightarrow> string list \<times> (string \<times> bool) list" where
  "enqueue [] (q, visited) = (q, visited)"
| "enqueue (neighbor # rest) (q, visited) =
     (if map_of visited neighbor \<noteq> Some True
      then enqueue rest (q @ [neighbor], AList.update neighbor True visited)
      else enqueue rest (q, visited))"

definition marked :: "(string \<times> bool) list \<Rightarrow> string set" where
  "marked visited = {k. map_of visited k = Some True}"

definition targets :: "adjacency \<Rightarrow> string set" where
  "targets adj = (\<Union>(k, m) \<in> set adj. fst ` set m)"

lemma finite_targets: "finite (targets adj)"
  by (auto simp: targets_def)

lemma neighbors_targets: "set (neighbors adj cur) \<subseteq> targets adj"
proof (cases "map_of adj cur")
  case None
  then show ?thesis by (simp add: neighbors_def)
next
  case (Some m)
  then have "(cur, m) \<in> set adj" by (rule map_of_SomeD)
  then have "fst ` set m \<subseteq> targets adj" unfolding targets_def by blast
  with Some show ?thesis by (simp add: neighbors_def)
qed

lemma mem_marked: "k \<in> marked v \<longleftrightarrow> map_of v k = Some True"
  by (simp add: marked_def)

lemma marked_update: "marked (AList.update k True v) = insert k (marked v)"
  by (rule set_eqI) (simp add: mem_marked update_conv')

lemma enqueue_marked:
  "enqueue ns (q, v) = (q', v') \<Longrightarrow> marked v' = marked v \<union> set ns"
proof (induction ns arbitrary: q v)
  case Nil
  then show ?case by simp
next
  case (Cons n ns)
  show ?case
  proof (cases "map_of v n = Some True")
    case True
    with Cons.prems have "enqueue ns (q, v) = (q', v')" by simp
    then have "marked v' = marked v \<union> set ns" by (rule Cons.IH)
    moreover have "n \<in> marked v" using True by (simp add: mem_marked)
    ultimately show ?thesis by auto
  next
    case False
    with Cons.prems have "enqueue ns (q @ [n], AList.update n True v) = (q', v')" by simp
    then have "marked v' = marked (AList.update n True v) \<union> set ns" by (rule Cons.IH)
    then show ?thesis by (simp add: marked_update)
  qed
qed

lemma enqueue_queue:
  "enqueue ns (q, v) = (q', v') \<Longrightarrow> set q' = set q \<union> (set ns - marked v)"
proof (induction ns arbitrary: q v)
  case Nil
  then show ?case by simp
next
  case (Cons n ns)
  show ?case
  proof (cases "map_of v n = Some True")
    case True
    with Cons.prems have "enqueue ns (q, v) = (q', v')" by simp
    then have "set q' = set q \<union> (set ns - marked v)" by (rule Cons.IH)
    moreover have "n \<in> marked v" using True by (simp add: mem_marked)
    ultimately show ?thesis by auto
  next
    case False
    with Cons.prems have "enqueue ns (q @ [n], AList.update n True v) = (q', v')" by simp
    then have "set q' = set (q @ [n]) \<union> (set ns - marked (AList.update n True v))"
      by (rule Cons.IH)
    moreover have "n \<notin> marked v" using False by (simp add: mem_marked)
    ultimately show ?thesis by (auto simp: marked_update)
  qed
qed

lemma enqueue_measure:
  assumes "enqueue ns (q, v) = (q', v')" and "set ns \<subseteq> U" and "finite U"
  shows "2 * card (U - marked v') + length q' \<le> 2 * card (U - marked v) + length q"
  using assms
proof (induction ns arbitrary: q v)
  case Nil
  then show ?case by simp
next
  case (Cons n ns)
  show ?case
  proof (cases "map_of v n = Some True")
    case True
    with Cons.prems have "enqueue ns (q, v) = (q', v')" by simp
    from Cons.IH [OF this] Cons.prems show ?thesis by simp
  next
    case False
    with Cons.prems have e: "enqueue ns (q @ [n], AList.update n True v) = (q', v')" by simp
    have n: "n \<in> U - marked v" using False Cons.prems by (simp add: mem_marked)
    have "U - marked (AList.update n True v) = (U - marked v) - {n}"
      by (auto simp: marked_update)
    then have "card (U - marked (AList.update n True v)) = card (U - marked v) - 1"
      using n Cons.prems by simp
    moreover have "card (U - marked v) > 0"
    proof -
      have "finite (U - marked v)" using Cons.prems by simp
      with n show ?thesis by (auto simp: card_gt_0_iff)
    qed
    ultimately have "2 * card (U - marked (AList.update n True v)) + length (q @ [n])
                       \<le> 2 * card (U - marked v) + length q"
      by simp
    with Cons.IH [OF e] Cons.prems show ?thesis by simp
  qed
qed

text \<open>
  The breadth-first search from one producer: pop the head of the queue, succeed when it
  is a consumer, otherwise enqueue its unvisited neighbours. The empty queue ends the
  search without success.
\<close>

function bfs ::
  "adjacency \<Rightarrow> (string \<times> bool) list \<Rightarrow> string list \<Rightarrow> (string \<times> bool) list \<Rightarrow> bool" where
  "bfs adj consumers [] visited = False"
| "bfs adj consumers (cur # q) visited =
     (if map_of consumers cur = Some True then True
      else case enqueue (neighbors adj cur) (q, visited) of
             (q', visited') \<Rightarrow> bfs adj consumers q' visited')"
  by pat_completeness auto
termination
proof (relation "measure (\<lambda>(adj, consumers, q, visited).
                   2 * card (targets adj - marked visited) + length q)", goal_cases)
  case 1
  show ?case by simp
next
  case (2 adj consumers cur q visited q' visited')
  then have "enqueue (neighbors adj cur) (q, visited) = (q', visited')" by simp
  from enqueue_measure [OF this neighbors_targets finite_targets]
  show ?case by simp
qed

declare bfs.simps [simp del]

text \<open>The loop over the producers: the first successful search returns true.\<close>

fun searchFrom ::
  "adjacency \<Rightarrow> (string \<times> bool) list \<Rightarrow> string list \<Rightarrow> bool" where
  "searchFrom adj consumers [] = False"
| "searchFrom adj consumers (p # ps) =
     (if bfs adj consumers [p] [(p, True)] then True else searchFrom adj consumers ps)"

definition doRequireStreaming :: "'a WorkflowSchema \<Rightarrow> bool" where
  "doRequireStreaming w =
     (let producers = producersOf (Nodes w);
          consumers = consumersOf (Nodes w)
      in if length producers = 0 \<or> length consumers = 0 then False
         else searchFrom (buildAdj (Nodes w)) consumers (map fst producers))"


subsection \<open>Correctness of the search\<close>

definition adjRel :: "adjacency \<Rightarrow> (string \<times> string) set" where
  "adjRel adj = {(x, y). y \<in> set (neighbors adj x)}"

definition reachesConsumer :: "adjacency \<Rightarrow> (string \<times> bool) list \<Rightarrow> string \<Rightarrow> bool" where
  "reachesConsumer adj consumers x \<longleftrightarrow>
     (\<exists>c. (x, c) \<in> (adjRel adj)\<^sup>* \<and> map_of consumers c = Some True)"

lemma reachesConsumer_step:
  "y \<in> set (neighbors adj x) \<Longrightarrow> reachesConsumer adj consumers y \<Longrightarrow>
   reachesConsumer adj consumers x"
  unfolding reachesConsumer_def adjRel_def
  by (meson case_prodI converse_rtrancl_into_rtrancl mem_Collect_eq)

lemma bfs_sound:
  "bfs adj consumers q visited \<Longrightarrow> \<exists>x \<in> set q. reachesConsumer adj consumers x"
proof (induction adj consumers q visited rule: bfs.induct)
  case (1 adj consumers visited)
  then show ?case by (simp add: bfs.simps)
next
  case (2 adj consumers cur q visited)
  show ?case
  proof (cases "map_of consumers cur = Some True")
    case True
    then have "reachesConsumer adj consumers cur"
      unfolding reachesConsumer_def by blast
    then show ?thesis by simp
  next
    case False
    obtain q' visited' where e: "enqueue (neighbors adj cur) (q, visited) = (q', visited')"
      by (cases "enqueue (neighbors adj cur) (q, visited)")
    with False "2.prems" have "bfs adj consumers q' visited'" by (simp add: bfs.simps)
    with "2.IH" [OF False e [symmetric]] obtain x
      where x: "x \<in> set q'" "reachesConsumer adj consumers x" by blast
    from enqueue_queue [OF e] x(1)
    have "x \<in> set q \<or> x \<in> set (neighbors adj cur)" by blast
    then show ?thesis
    proof
      assume "x \<in> set q"
      with x(2) show ?thesis by auto
    next
      assume "x \<in> set (neighbors adj cur)"
      from reachesConsumer_step [OF this x(2)] show ?thesis by simp
    qed
  qed
qed

text \<open>
  The invariant of the search: queued nodes are marked, and a marked node that has left
  the queue is no consumer and has all its neighbours marked.
\<close>

definition bfsInv ::
  "adjacency \<Rightarrow> (string \<times> bool) list \<Rightarrow> string list \<Rightarrow> (string \<times> bool) list \<Rightarrow> bool" where
  "bfsInv adj consumers q visited \<longleftrightarrow>
     set q \<subseteq> marked visited \<and>
     (\<forall>v \<in> marked visited - set q.
        map_of consumers v \<noteq> Some True \<and> set (neighbors adj v) \<subseteq> marked visited)"

lemma bfsInv_frontier:
  assumes inv: "bfsInv adj consumers q visited"
    and path: "(y, c) \<in> (adjRel adj)\<^sup>*"
    and cons: "map_of consumers c = Some True"
    and y: "y \<in> marked visited"
  shows "\<exists>x \<in> set q. reachesConsumer adj consumers x"
  using path y
proof (induction rule: converse_rtrancl_induct)
  case base
  with inv cons have "c \<in> set q" unfolding bfsInv_def by blast
  moreover have "reachesConsumer adj consumers c"
    using cons unfolding reachesConsumer_def by blast
  ultimately show ?case by blast
next
  case (step y z)
  show ?case
  proof (cases "y \<in> set q")
    case True
    have "reachesConsumer adj consumers y"
      unfolding reachesConsumer_def
      using step.hyps cons by (meson converse_rtrancl_into_rtrancl)
    with True show ?thesis by blast
  next
    case False
    with step.prems inv have "set (neighbors adj y) \<subseteq> marked visited"
      unfolding bfsInv_def by blast
    moreover from step.hyps(1) have "z \<in> set (neighbors adj y)"
      by (simp add: adjRel_def)
    ultimately have "z \<in> marked visited" by blast
    then show ?thesis by (rule step.IH)
  qed
qed

lemma bfsInv_step:
  assumes inv: "bfsInv adj consumers (cur # q) visited"
    and nc: "map_of consumers cur \<noteq> Some True"
    and e: "enqueue (neighbors adj cur) (q, visited) = (q', visited')"
  shows "bfsInv adj consumers q' visited'"
proof -
  have m: "marked visited' = marked visited \<union> set (neighbors adj cur)"
    using e by (rule enqueue_marked)
  have q: "set q' = set q \<union> (set (neighbors adj cur) - marked visited)"
    using e by (rule enqueue_queue)
  have sub: "set q' \<subseteq> marked visited'"
    using inv m q unfolding bfsInv_def by auto
  have "map_of consumers v \<noteq> Some True \<and> set (neighbors adj v) \<subseteq> marked visited'"
    if v: "v \<in> marked visited' - set q'" for v
  proof (cases "v = cur")
    case True
    with nc m show ?thesis by auto
  next
    case False
    from v m q have "v \<in> marked visited" by auto
    moreover from v q have "v \<notin> set q" by auto
    ultimately have "v \<in> marked visited - set (cur # q)" using False by simp
    with inv have "map_of consumers v \<noteq> Some True \<and> set (neighbors adj v) \<subseteq> marked visited"
      unfolding bfsInv_def by blast
    with m show ?thesis by auto
  qed
  with sub show ?thesis unfolding bfsInv_def by blast
qed

lemma bfs_complete:
  "bfsInv adj consumers q visited \<Longrightarrow> y \<in> marked visited \<Longrightarrow>
   reachesConsumer adj consumers y \<Longrightarrow> bfs adj consumers q visited"
proof (induction adj consumers q visited rule: bfs.induct)
  case (1 adj consumers visited)
  from "1.prems"(3) obtain c where "(y, c) \<in> (adjRel adj)\<^sup>*" "map_of consumers c = Some True"
    unfolding reachesConsumer_def by blast
  from bfsInv_frontier [OF "1.prems"(1) this "1.prems"(2)] show ?case by simp
next
  case (2 adj consumers cur q visited)
  show ?case
  proof (cases "map_of consumers cur = Some True")
    case True
    then show ?thesis by (simp add: bfs.simps)
  next
    case False
    obtain q' visited' where e: "enqueue (neighbors adj cur) (q, visited) = (q', visited')"
      by (cases "enqueue (neighbors adj cur) (q, visited)")
    have inv': "bfsInv adj consumers q' visited'"
      using "2.prems"(1) False e by (rule bfsInv_step)
    have "y \<in> marked visited'"
      using enqueue_marked [OF e] "2.prems"(2) by simp
    from "2.IH" [OF False e [symmetric] inv' this "2.prems"(3)]
    show ?thesis using False e by (simp add: bfs.simps)
  qed
qed

lemma bfs_from_producer:
  "bfs adj consumers [p] [(p, True)] \<longleftrightarrow> reachesConsumer adj consumers p"
proof
  assume "bfs adj consumers [p] [(p, True)]"
  from bfs_sound [OF this] show "reachesConsumer adj consumers p" by simp
next
  assume r: "reachesConsumer adj consumers p"
  have m: "marked [(p, True)] = {p}" by (auto simp: marked_def)
  then have "bfsInv adj consumers [p] [(p, True)]" by (simp add: bfsInv_def)
  moreover have "p \<in> marked [(p, True)]" using m by simp
  ultimately show "bfs adj consumers [p] [(p, True)]" using r by (rule bfs_complete)
qed

lemma searchFrom_iff:
  "searchFrom adj consumers ps \<longleftrightarrow> (\<exists>p \<in> set ps. reachesConsumer adj consumers p)"
  by (induction ps) (simp_all add: bfs_from_producer)


subsection \<open>\<^verbatim>\<open>WorkflowSchema.Init\<close>\<close>

text \<open>
  What \<^verbatim>\<open>Init\<close> needs from outside the sources at hand: the node type constant of
  sub-workflow nodes, and the two interfaces a node's configs may implement
  (\<open>None\<close>: the type assertion fails; \<open>ChatHistoryAware\<close> gives
  \<^verbatim>\<open>ChatHistoryEnabled()\<close> and \<^verbatim>\<open>ChatHistoryRounds()\<close>).
\<close>

record 'a schemaEnv =
  NodeTypeSubWorkflow :: string
  ChatHistoryAware :: "'a \<Rightarrow> (bool \<times> int) option"
  RequireCheckpoint :: "'a \<Rightarrow> bool option"

text \<open>
  \<open>InitNodes\<close> is the loop over \<open>w.Nodes\<close>: it returns the nodes (the embedded schemas of
  the visited sub-workflow nodes are initialised in place), the history rounds, and
  whether the loop set \<open>requireCheckPoint\<close>, which also ends it (\<^verbatim>\<open>break\<close>). Calling
  \<^verbatim>\<open>Init\<close> on a nil embedded schema panics. The result of \<^verbatim>\<open>doGetCompositeNodes\<close> is
  dropped by \<^verbatim>\<open>Init\<close>, so the call is left out.
\<close>

fun Init :: "'a schemaEnv \<Rightarrow> 'a WorkflowSchema \<Rightarrow> 'a WorkflowSchema outcome"
  and InitNodes ::
    "'a schemaEnv \<Rightarrow> 'a NodeSchema list \<Rightarrow> int \<Rightarrow> ('a NodeSchema list \<times> int \<times> bool) outcome"
  and InitNode ::
    "'a schemaEnv \<Rightarrow> 'a NodeSchema \<Rightarrow> int \<Rightarrow> ('a NodeSchema \<times> int \<times> bool) outcome"
where
  "Init env (WorkflowSchema ns cs h b g rc rs hr initialised) =
     (if initialised then Return (WorkflowSchema ns cs h b g rc rs hr initialised)
      else case InitNodes env ns 0 of
             Panic p \<Rightarrow> Panic p
           | Fail e \<Rightarrow> Fail e
           | Return (ns', historyRounds', rc') \<Rightarrow>
               Return (WorkflowSchema ns' cs h b g (rc \<or> rc')
                        (doRequireStreaming (WorkflowSchema ns' cs h b g (rc \<or> rc') rs hr True))
                        historyRounds' True))"
| "InitNodes env [] historyRounds' = Return ([], historyRounds', False)"
| "InitNodes env (node # rest) historyRounds' =
     (case InitNode env node historyRounds' of
        Panic p \<Rightarrow> Panic p
      | Fail e \<Rightarrow> Fail e
      | Return (node', hr1, brk) \<Rightarrow>
          if brk then Return (node' # rest, hr1, True)
          else (case InitNodes env rest hr1 of
                  Panic p \<Rightarrow> Panic p
                | Fail e \<Rightarrow> Fail e
                | Return (rest', hr2, rc') \<Rightarrow> Return (node' # rest', hr2, rc')))"
| "InitNode env (NodeSchema k t n c it is ot os ec sc sb sub) historyRounds' =
     (let tail = (\<lambda>node' hr0.
            let hr1 = (case ChatHistoryAware env c of
                         Some (enabled, rounds) \<Rightarrow> if enabled then max hr0 rounds else hr0
                       | None \<Rightarrow> hr0)
            in case RequireCheckpoint env c of
                 Some True \<Rightarrow> Return (node', hr1, True)
               | _ \<Rightarrow> Return (node', hr1, False))
      in if t = NodeTypeSubWorkflow env then
           (case sub of
              None \<Rightarrow> Panic NilPointerDereference
            | Some s \<Rightarrow>
                (case Init env s of
                   Panic p \<Rightarrow> Panic p
                 | Fail e \<Rightarrow> Fail e
                 | Return s' \<Rightarrow>
                     let node' = NodeSchema k t n c it is ot os ec sc sb (Some s');
                         hr0 = max historyRounds' (historyRounds s')
                     in if requireCheckPoint s' then Return (node', hr0, True)
                        else tail node' hr0))
         else tail (NodeSchema k t n c it is ot os ec sc sb sub) historyRounds')"

definition RequireStreaming :: "'a WorkflowSchema \<Rightarrow> bool" where
  "RequireStreaming w = requireStreaming w"


subsection \<open>The data-flow graph of a schema\<close>

definition isProducer :: "'a WorkflowSchema \<Rightarrow> string \<Rightarrow> bool" where
  "isProducer w k \<longleftrightarrow>
     (\<exists>node \<in> set (Nodes w). Key node = k \<and>
        (\<exists>sc. StreamConfigs node = Some sc \<and> CanGeneratesStream sc))"

definition isConsumer :: "'a WorkflowSchema \<Rightarrow> string \<Rightarrow> bool" where
  "isConsumer w k \<longleftrightarrow>
     (\<exists>node \<in> set (Nodes w). Key node = k \<and>
        (\<exists>sc. StreamConfigs node = Some sc \<and> RequireStreamingInput sc))"

text \<open>
  An edge runs from the node an input source refers to, to the node holding the input
  source. A reference with an empty \<open>FromNodeKey\<close> names no node (it refers to a
  variable) and gives no edge.
\<close>

definition dataFlowEdges :: "'a WorkflowSchema \<Rightarrow> (string \<times> string) set" where
  "dataFlowEdges w =
     {(from, to). \<exists>node \<in> set (Nodes w). \<exists>source \<in> set (elements (InputSources node)). \<exists>r.
        Ref (Source source) = Some r \<and> FromNodeKey r = from \<and> from \<noteq> [] \<and> Key node = to}"

lemma map_of_fold_cond_update:
  "map_of (fold (\<lambda>x m. if P x then AList.update (f x) True m else m) xs m0) k =
     (if \<exists>x \<in> set xs. P x \<and> f x = k then Some True else map_of m0 k)"
  by (induction xs arbitrary: m0) (auto simp: update_conv')

lemma map_of_producersOf:
  "map_of (producersOf (Nodes w)) k = (if isProducer w k then Some True else None)"
proof -
  have "producersOf ns =
          fold (\<lambda>x m. if (\<exists>sc. StreamConfigs x = Some sc \<and> CanGeneratesStream sc)
                       then AList.update (Key x) True m else m) ns []" for ns :: "'a NodeSchema list"
    unfolding producersOf_def
    by (rule arg_cong [where f = "\<lambda>f. fold f ns []"]) (auto simp: fun_eq_iff split: option.splits)
  then have "map_of (producersOf (Nodes w)) k =
      (if \<exists>x \<in> set (Nodes w). (\<exists>sc. StreamConfigs x = Some sc \<and> CanGeneratesStream sc) \<and> Key x = k
       then Some True else None)"
    by (simp add: map_of_fold_cond_update)
  moreover have "isProducer w k \<longleftrightarrow>
      (\<exists>x \<in> set (Nodes w). (\<exists>sc. StreamConfigs x = Some sc \<and> CanGeneratesStream sc) \<and> Key x = k)"
    unfolding isProducer_def by blast
  ultimately show ?thesis by simp
qed

lemma map_of_consumersOf:
  "map_of (consumersOf (Nodes w)) k = (if isConsumer w k then Some True else None)"
proof -
  have "consumersOf ns =
          fold (\<lambda>x m. if (\<exists>sc. StreamConfigs x = Some sc \<and> RequireStreamingInput sc)
                       then AList.update (Key x) True m else m) ns []" for ns :: "'a NodeSchema list"
    unfolding consumersOf_def
    by (rule arg_cong [where f = "\<lambda>f. fold f ns []"]) (auto simp: fun_eq_iff split: option.splits)
  then have "map_of (consumersOf (Nodes w)) k =
      (if \<exists>x \<in> set (Nodes w). (\<exists>sc. StreamConfigs x = Some sc \<and> RequireStreamingInput sc) \<and> Key x = k
       then Some True else None)"
    by (simp add: map_of_fold_cond_update)
  moreover have "isConsumer w k \<longleftrightarrow>
      (\<exists>x \<in> set (Nodes w). (\<exists>sc. StreamConfigs x = Some sc \<and> RequireStreamingInput sc) \<and> Key x = k)"
    unfolding isConsumer_def by blast
  ultimately show ?thesis by simp
qed

lemma keys_producersOf: "set (map fst (producersOf (Nodes w))) = {k. isProducer w k}"
proof -
  have "k \<in> fst ` set (producersOf (Nodes w)) \<longleftrightarrow> isProducer w k" for k
    using map_of_producersOf [of w k] map_of_eq_None_iff [of "producersOf (Nodes w)" k]
    by (auto split: if_splits)
  then show ?thesis by auto
qed

lemma keys_consumersOf: "set (map fst (consumersOf (Nodes w))) = {k. isConsumer w k}"
proof -
  have "k \<in> fst ` set (consumersOf (Nodes w)) \<longleftrightarrow> isConsumer w k" for k
    using map_of_consumersOf [of w k] map_of_eq_None_iff [of "consumersOf (Nodes w)" k]
    by (auto split: if_splits)
  then show ?thesis by auto
qed

lemma neighbors_addEdge:
  "set (neighbors (addEdge from to adj) x) =
     set (neighbors adj x) \<union> (if x = from then {to} else {})"
proof -
  define adj1 where "adj1 = (case map_of adj from of None \<Rightarrow> AList.update from [] adj | Some _ \<Rightarrow> adj)"
  define m0 where "m0 = (case map_of adj1 from of None \<Rightarrow> [] | Some m \<Rightarrow> m)"
  have n1: "set (neighbors adj1 y) = set (neighbors adj y)" for y
    by (cases "map_of adj from") (simp_all add: adj1_def neighbors_def update_conv')
  have a: "addEdge from to adj = AList.update from (AList.update to () m0) adj1"
    by (simp add: addEdge_def adj1_def m0_def Let_def)
  have m0: "fst ` set m0 = set (neighbors adj1 from)"
    by (cases "map_of adj1 from") (simp_all add: m0_def neighbors_def)
  show ?thesis
  proof (cases "x = from")
    case True
    then have "map_of (addEdge from to adj) x = Some (AList.update to () m0)"
      unfolding a by (simp add: update_conv')
    then have "set (neighbors (addEdge from to adj) x) = fst ` set (AList.update to () m0)"
      by (simp add: neighbors_def)
    also have "\<dots> = {to} \<union> fst ` set m0" by (rule dom_update)
    finally show ?thesis using True m0 n1 by auto
  next
    case False
    then have "map_of (addEdge from to adj) x = map_of adj1 x"
      unfolding a by (simp add: update_conv')
    then have "neighbors (addEdge from to adj) x = neighbors adj1 x"
      unfolding neighbors_def by (rule arg_cong)
    with False n1 show ?thesis by simp
  qed
qed

lemma adjRel_addEdge: "adjRel (addEdge from to adj) = insert (from, to) (adjRel adj)"
  by (auto simp: adjRel_def neighbors_addEdge split: if_splits)

definition sourceEdges :: "'a NodeSchema \<Rightarrow> 'a FieldInfo list \<Rightarrow> (string \<times> string) set" where
  "sourceEdges node srcs =
     {(from, to). \<exists>source \<in> set srcs. \<exists>r.
        Ref (Source source) = Some r \<and> FromNodeKey r = from \<and> from \<noteq> [] \<and> Key node = to}"

lemma adjRel_fold_sources:
  "adjRel (fold (\<lambda>source adj.
                   case Ref (Source source) of
                     None \<Rightarrow> adj
                   | Some r \<Rightarrow> if length (FromNodeKey r) > 0
                              then addEdge (FromNodeKey r) (Key node) adj else adj)
                srcs adj0) = adjRel adj0 \<union> sourceEdges node srcs"
proof (induction srcs arbitrary: adj0)
  case Nil
  show ?case by (simp add: sourceEdges_def)
next
  case (Cons s srcs)
  have split: "sourceEdges node (s # srcs) = sourceEdges node [s] \<union> sourceEdges node srcs"
    by (auto simp: sourceEdges_def)
  show ?case
  proof (cases "Ref (Source s)")
    case None
    then have "sourceEdges node [s] = {}" by (simp add: sourceEdges_def)
    with None Cons.IH split show ?thesis by simp
  next
    case (Some r)
    show ?thesis
    proof (cases "FromNodeKey r = []")
      case True
      with Some have "sourceEdges node [s] = {}" by (auto simp: sourceEdges_def)
      with Some True Cons.IH split show ?thesis by simp
    next
      case False
      with Some have "sourceEdges node [s] = {(FromNodeKey r, Key node)}"
        by (auto simp: sourceEdges_def)
      with Some False Cons.IH split show ?thesis by (simp add: adjRel_addEdge)
    qed
  qed
qed

lemma adjRel_fold_nodes:
  "adjRel (fold (\<lambda>node adj.
                   fold (\<lambda>source adj.
                           case Ref (Source source) of
                             None \<Rightarrow> adj
                           | Some r \<Rightarrow> if length (FromNodeKey r) > 0
                                      then addEdge (FromNodeKey r) (Key node) adj else adj)
                        (elements (InputSources node)) adj)
                ns adj0) =
     adjRel adj0 \<union> (\<Union>node \<in> set ns. sourceEdges node (elements (InputSources node)))"
  by (induction ns arbitrary: adj0) (auto simp: adjRel_fold_sources)

lemma adjRel_buildAdj: "adjRel (buildAdj (Nodes w)) = dataFlowEdges w"
proof -
  have "adjRel ([] :: adjacency) = {}" by (simp add: adjRel_def neighbors_def)
  then have "adjRel (buildAdj (Nodes w)) =
               (\<Union>node \<in> set (Nodes w). sourceEdges node (elements (InputSources node)))"
    unfolding buildAdj_def by (simp add: adjRel_fold_nodes)
  also have "\<dots> = dataFlowEdges w"
    by (auto simp: sourceEdges_def dataFlowEdges_def)
  finally show ?thesis .
qed

lemma doRequireStreaming_iff:
  "doRequireStreaming w \<longleftrightarrow>
     (\<exists>p c. isProducer w p \<and> isConsumer w c \<and> (p, c) \<in> (dataFlowEdges w)\<^sup>*)"
proof -
  let ?P = "producersOf (Nodes w)" and ?C = "consumersOf (Nodes w)"
  have reach: "reachesConsumer (buildAdj (Nodes w)) ?C p \<longleftrightarrow>
                 (\<exists>c. isConsumer w c \<and> (p, c) \<in> (dataFlowEdges w)\<^sup>*)" for p
    by (auto simp: reachesConsumer_def adjRel_buildAdj map_of_consumersOf split: if_splits)
  have search: "searchFrom (buildAdj (Nodes w)) ?C (map fst ?P) \<longleftrightarrow>
                 (\<exists>p c. isProducer w p \<and> isConsumer w c \<and> (p, c) \<in> (dataFlowEdges w)\<^sup>*)"
    unfolding searchFrom_iff keys_producersOf using reach by auto
  have emptyP: "length ?P = 0 \<Longrightarrow> \<not> isProducer w p" for p
    using keys_producersOf [of w] by auto
  have emptyC: "length ?C = 0 \<Longrightarrow> \<not> isConsumer w c" for c
    using keys_consumersOf [of w] by auto
  show ?thesis
    unfolding doRequireStreaming_def Let_def
    using search emptyP emptyC by (auto simp del: length_0_conv)
qed


subsection \<open>\<^verbatim>\<open>Init\<close> keeps the data-flow graph\<close>

definition streamView ::
  "'a NodeSchema \<Rightarrow> string \<times> StreamConfig option \<times> 'a FieldInfo slice" where
  "streamView n = (Key n, StreamConfigs n, InputSources n)"

lemma InitNode_streamView:
  "InitNode env node hr = Return (node', hr1, brk) \<Longrightarrow> streamView node' = streamView node"
  by (cases node)
     (auto simp: streamView_def Let_def split: if_splits option.splits outcome.splits bool.splits)

lemma InitNodes_streamView:
  "InitNodes env ns hr = Return (ns', hr1, rc') \<Longrightarrow> map streamView ns' = map streamView ns"
proof (induction ns arbitrary: hr ns' hr1 rc')
  case Nil
  then show ?case by simp
next
  case (Cons node rest)
  from Cons.prems obtain node' h1 brk where n: "InitNode env node hr = Return (node', h1, brk)"
    by (auto split: outcome.splits)
  note v = InitNode_streamView [OF n]
  show ?case
  proof (cases brk)
    case True
    with Cons.prems n v show ?thesis by auto
  next
    case False
    with Cons.prems n obtain rest' where r: "InitNodes env rest h1 = Return (rest', hr1, rc')"
      and ns': "ns' = node' # rest'"
      by (auto split: outcome.splits)
    from Cons.IH [OF r] v ns' show ?thesis by simp
  qed
qed

lemma streamView_image:
  "map streamView (Nodes w) = map streamView (Nodes w') \<Longrightarrow>
   streamView ` set (Nodes w) = streamView ` set (Nodes w')"
  by (metis set_map)

lemma isProducer_streamView:
  assumes "map streamView (Nodes w) = map streamView (Nodes w')"
  shows "isProducer w = isProducer w'"
proof -
  have h: "isProducer v =
          (\<lambda>k. \<exists>x \<in> streamView ` set (Nodes v). fst x = k \<and>
             (\<exists>sc. fst (snd x) = Some sc \<and> CanGeneratesStream sc))" for v :: "'a WorkflowSchema"
    by (auto simp: isProducer_def streamView_def fun_eq_iff)
  show ?thesis by (simp only: h streamView_image [OF assms])
qed

lemma isConsumer_streamView:
  assumes "map streamView (Nodes w) = map streamView (Nodes w')"
  shows "isConsumer w = isConsumer w'"
proof -
  have h: "isConsumer v =
          (\<lambda>k. \<exists>x \<in> streamView ` set (Nodes v). fst x = k \<and>
             (\<exists>sc. fst (snd x) = Some sc \<and> RequireStreamingInput sc))" for v :: "'a WorkflowSchema"
    by (auto simp: isConsumer_def streamView_def fun_eq_iff)
  show ?thesis by (simp only: h streamView_image [OF assms])
qed

lemma dataFlowEdges_streamView:
  assumes "map streamView (Nodes w) = map streamView (Nodes w')"
  shows "dataFlowEdges w = dataFlowEdges w'"
proof -
  have h: "dataFlowEdges v =
          {(from, to). \<exists>x \<in> streamView ` set (Nodes v). \<exists>source \<in> set (elements (snd (snd x))). \<exists>r.
             Ref (Source source) = Some r \<and> FromNodeKey r = from \<and> from \<noteq> [] \<and> fst x = to}"
    for v :: "'a WorkflowSchema"
    by (auto simp: dataFlowEdges_def streamView_def)
  show ?thesis by (simp only: h streamView_image [OF assms])
qed

lemma doRequireStreaming_streamView:
  "map streamView (Nodes w) = map streamView (Nodes w') \<Longrightarrow>
   doRequireStreaming w = doRequireStreaming w'"
  by (simp add: doRequireStreaming_iff isProducer_streamView [of w w']
      isConsumer_streamView [of w w'] dataFlowEdges_streamView [of w w'])

lemma Init_requireStreaming:
  assumes "Init env w = Return w'" and "\<not> once w"
  shows "requireStreaming w' = doRequireStreaming w'"
proof (cases w)
  case (WorkflowSchema ns cs h b g rc rs hr initialised)
  with assms(2) have ni: "\<not> initialised" by simp
  with assms(1) WorkflowSchema obtain ns' hr' rc'
    where "InitNodes env ns 0 = Return (ns', hr', rc')"
      and w': "w' = WorkflowSchema ns' cs h b g (rc \<or> rc')
                 (doRequireStreaming (WorkflowSchema ns' cs h b g (rc \<or> rc') rs hr True)) hr' True"
    by (auto split: outcome.splits)
  have "doRequireStreaming (WorkflowSchema ns' cs h b g (rc \<or> rc') rs hr True) =
          doRequireStreaming w'"
    by (rule doRequireStreaming_streamView) (simp add: w')
  moreover have "requireStreaming w' =
          doRequireStreaming (WorkflowSchema ns' cs h b g (rc \<or> rc') rs hr True)"
    by (simp add: w')
  ultimately show ?thesis by simp
qed

definition exampleEnv :: "unit schemaEnv" where
  "exampleEnv = \<lparr>NodeTypeSubWorkflow = ''SubWorkflow'',
                 ChatHistoryAware = (\<lambda>_. None), RequireCheckpoint = (\<lambda>_. None)\<rparr>"

definition exampleNodes :: "unit NodeSchema list" where
  "exampleNodes =
     [NodeSchema ''llm'' ''LLM'' ''model'' () () NilSlice () NilSlice None
        (Some \<lparr>CanGeneratesStream = True, RequireStreamingInput = False\<rparr>) None None,
      NodeSchema ''exit'' ''Exit'' ''end'' () ()
        (Slice [\<lparr>Path = Slice [''output''],
                 Source = \<lparr>Ref = Some \<lparr>FromNodeKey = ''llm'', FromPath = Slice [''text'']\<rparr>,
                           Val = None, FileExtra = None\<rparr>\<rparr>])
        () NilSlice None
        (Some \<lparr>CanGeneratesStream = False, RequireStreamingInput = True\<rparr>) None None]"

definition exampleSchema :: "bool \<Rightarrow> unit WorkflowSchema" where
  "exampleSchema initialised =
     WorkflowSchema exampleNodes [] [] [] [] False initialised 0 initialised"

text \<open>
  C4. For a schema initialised by \<^verbatim>\<open>Init\<close> (as compilation does on the schema it has
  just built), \<^verbatim>\<open>RequireStreaming()\<close> returns true exactly when some producer (a node
  whose stream config has \<open>CanGeneratesStream\<close>) reaches some consumer (a node whose stream
  config has \<open>RequireStreamingInput\<close>) in the data-flow graph, whose edges run from the node
  an input source refers to, to the node holding the input source. A node that is both
  producer and consumer gives true by the empty path, and without producers or without
  consumers the result is false.
\<close>

theorem RequireStreaming_iff_producer_reaches_consumer:
  assumes "Init env w = Return w'" and "\<not> once w"
  shows "(RequireStreaming w' \<longleftrightarrow>
            (\<exists>p c. isProducer w' p \<and> isConsumer w' c \<and> (p, c) \<in> (dataFlowEdges w')\<^sup>*)) \<and>
         (isProducer w' k \<and> isConsumer w' k \<longrightarrow> RequireStreaming w') \<and>
         ((\<forall>p. \<not> isProducer w' p) \<or> (\<forall>c. \<not> isConsumer w' c) \<longrightarrow> \<not> RequireStreaming w')"
proof -
  have "RequireStreaming w' = doRequireStreaming w'"
    unfolding RequireStreaming_def using assms by (rule Init_requireStreaming)
  then have iff: "RequireStreaming w' \<longleftrightarrow>
      (\<exists>p c. isProducer w' p \<and> isConsumer w' c \<and> (p, c) \<in> (dataFlowEdges w')\<^sup>*)"
    by (simp add: doRequireStreaming_iff)
  then show ?thesis by blast
qed
theorem RequireStreaming_witness:
  "Init exampleEnv (exampleSchema False) = Return (exampleSchema True) \<and>
   \<not> once (exampleSchema False) \<and>
   RequireStreaming (exampleSchema True) \<and>
   (\<exists>p c. isProducer (exampleSchema True) p \<and> isConsumer (exampleSchema True) c \<and>
      (p, c) \<in> (dataFlowEdges (exampleSchema True))\<^sup>*)"
proof -
  have i: "Init exampleEnv (exampleSchema False) = Return (exampleSchema True)"
    by (simp add: exampleEnv_def exampleSchema_def exampleNodes_def doRequireStreaming_def
        producersOf_def consumersOf_def buildAdj_def addEdge_def neighbors_def bfs.simps Let_def)
  have o: "\<not> once (exampleSchema False)"
    by (simp add: exampleSchema_def)
  have r: "RequireStreaming (exampleSchema True)"
    by (simp add: RequireStreaming_def exampleSchema_def)
  from RequireStreaming_iff_producer_reaches_consumer [OF i o, of "''llm''"] r
  show ?thesis using i o by blast
qed

section \<open>The canvas (package vo)\<close>

record Edge =
  SourceNodeID :: string
  TargetNodeID :: string
  SourcePortID :: string
  TargetPortID :: string

record BlockInputReference =
  BlockID :: string
  RefName :: string
  RefPath :: "string list"
  RefSource :: string

text \<open>
  A value of Go type \<^verbatim>\<open>any\<close> on the canvas: nil, a string, a pointer to one of the
  structures below, or a value decoded from JSON whose shape the model does not inspect
  (\<open>AnyJSON\<close>, over the opaque type \<open>'j\<close>).
\<close>

datatype 'j any =
    AnyNil
  | AnyJSON 'j
  | AnyString string
  | VariablePtr "'j Variable"
  | ParamPtr "'j Param"
  | ReferencePtr BlockInputReference
and 'j Variable = Variable
  (VarName: string)
  (VarType: string)
  (Required: bool)
  (AssistType: int)
  (VarSchema: "'j any")
  (Description: string)
  (ReadOnly: bool)
  (DefaultValue: "'j any")
and 'j BlockInput = BlockInput
  (InputType: string)
  (InputAssistType: int)
  (InputSchema: "'j any")
  (InputValue: "'j BlockInputValue option")
and 'j BlockInputValue = BlockInputValue
  (ValueType: string)
  (Content: "'j any")
  (RawMeta: "'j any")
and 'j Param = Param
  (ParamName: string)
  (Input: "'j BlockInput option")
  (Left: "'j BlockInput option")
  (Right: "'j BlockInput option")
  (Variables: "'j BlockInput list")

definition VariableTypeString :: string where "VariableTypeString = ''string''"
definition VariableTypeInteger :: string where "VariableTypeInteger = ''integer''"
definition VariableTypeObject :: string where "VariableTypeObject = ''object''"
definition VariableTypeList :: string where "VariableTypeList = ''list''"
definition BlockInputValueTypeLiteral :: string where "BlockInputValueTypeLiteral = ''literal''"
definition BlockInputValueTypeRef :: string where "BlockInputValueTypeRef = ''ref''"
definition RefSourceTypeBlockOutput :: string where "RefSourceTypeBlockOutput = ''block-output''"

record NodeMetaFE =
  Title :: string
  MetaDescription :: string
  Icon :: string
  SubTitle :: string
  MainColor :: string

record SettingOnError =
  SettingDataOnErr :: string
  Switch :: bool
  SettingProcessType :: "int option"
  RetryTimes :: int
  TimeoutMs :: int
  Ext :: "string option"

record SubWorkflow =
  WorkflowID :: string
  WorkflowVersion :: string
  TerminationType :: int
  SubWorkflowSpaceID :: string

record 'j Batch =
  BatchSize :: "'j BlockInput option"
  ConcurrentSize :: "'j BlockInput option"

record 'j NodeBatch =
  BatchEnable :: bool
  NodeBatchSize :: "64 word"
  NodeConcurrentSize :: "64 word"
  InputLists :: "'j Param list"

text \<open>
  \<^verbatim>\<open>Inputs\<close>: the fields the modelled functions read or copy. \<open>OtherInputs\<close> stands for
  the remaining embedded configurations (chat history setting, output emitter, exit,
  loop, selector, text processor, intent detector, database, HTTP requester, knowledge,
  code runner, variable aggregator and assigner, question-answer, comment, input
  receiver), which the modelled functions never read and leave nil in the \<^verbatim>\<open>Inputs\<close>
  they build.
\<close>

record 'j Inputs =
  InputParameters :: "'j Param list"
  SettingOnError :: "SettingOnError option"
  NodeBatchInfo :: "'j NodeBatch option"
  LLMParam :: "'j any"
  LLM :: "'j option"
  SubWorkflow :: "SubWorkflow option"
  PluginAPIParam :: "'j option"
  Batch :: "'j Batch option"
  OtherInputs :: "'j option"

record 'j Data =
  Meta :: "NodeMetaFE option"
  Outputs :: "'j any list"
  Inputs :: "'j Inputs option"
  Size :: "'j any"

text \<open>
  \<^verbatim>\<open>Node\<close>. The unexported \<^verbatim>\<open>parent\<close> pointer is not a field of the model: where the code
  reads \<^verbatim>\<open>Parent()\<close>, the parent is the node whose blocks are being walked, and the model
  passes it along.
\<close>

datatype 'j Node = Node
  (ID: string)
  (NodeType: string)
  (NodeMeta: "'j any")
  (Data: "'j Data option")
  (Blocks: "'j Node list")
  (NodeEdges: "Edge list")
  (NodeVersion: string)

record 'j Canvas =
  CanvasNodes :: "'j Node list"
  CanvasEdges :: "Edge list"
  Versions :: "'j any"

definition GenerateNodeIDForBatchMode :: "string \<Rightarrow> string" where
  "GenerateNodeIDForBatchMode key = key @ ''_inner''"


subsection \<open>Constants of package entity and of the graph library\<close>

definition END :: string where "END = ''end''"

record entityEnv =
  NodeTypeEntryID :: string
  NodeTypeExitID :: string
  NodeTypeSelectorID :: string
  NodeTypeBreakID :: string
  NodeTypeContinueID :: string
  NodeTypeBatchID :: string

subsection \<open>\<^verbatim>\<open>strconv\<close> on Go's int\<close>

text \<open>
  Go's \<^verbatim>\<open>int\<close> and \<^verbatim>\<open>int64\<close> are 64-bit words read as signed. \<open>FormatInt\<close> is the decimal
  text of \<^verbatim>\<open>strconv.FormatInt(n, 10)\<close> and of the verb \<^verbatim>\<open>%d\<close>; \<open>Atoi\<close> accepts an optional
  sign followed by one or more decimal digits and fails (\<open>None\<close>) on any other text and
  on a value outside the range of \<^verbatim>\<open>int\<close>.
\<close>

definition digitChar :: "nat \<Rightarrow> char" where
  "digitChar d = char_of (48 + d)"

function digits :: "nat \<Rightarrow> string" where
  "digits n = (if n < 10 then [digitChar n] else digits (n div 10) @ [digitChar (n mod 10)])"
  by pat_completeness auto
termination
  by (relation "measure id") auto

declare digits.simps [simp del]

definition FormatInt :: "64 word \<Rightarrow> string" where
  "FormatInt n = (if sint n < 0 then CHR ''-'' # digits (nat (- sint n)) else digits (nat (sint n)))"

definition digitOf :: "char \<Rightarrow> nat option" where
  "digitOf c = (let k = (of_char c :: nat) in if 48 \<le> k \<and> k \<le> 57 then Some (k - 48) else None)"

fun parseUint :: "string \<Rightarrow> nat \<Rightarrow> nat option" where
  "parseUint [] acc = Some acc"
| "parseUint (c # cs) acc =
     (case digitOf c of None \<Rightarrow> None | Some d \<Rightarrow> parseUint cs (acc * 10 + d))"

definition Atoi :: "string \<Rightarrow> (64 word) option" where
  "Atoi s =
     (let (neg, ds) = (case s of
                         [] \<Rightarrow> (False, [])
                       | c # r \<Rightarrow> if c = CHR ''+'' then (False, r)
                                 else if c = CHR ''-'' then (True, r) else (False, s))
      in if ds = [] then None
         else case parseUint ds 0 of
                None \<Rightarrow> None
              | Some n \<Rightarrow>
                  if neg then (if n \<le> 2 ^ 63 then Some (word_of_int (- int n)) else None)
                  else (if n < 2 ^ 63 then Some (word_of_int (int n)) else None))"

subsection \<open>\<^verbatim>\<open>EdgeToConnection\<close>\<close>

definition EdgeToConnection :: "Edge \<Rightarrow> Connection" where
  "EdgeToConnection e =
     (let toNode = (if length (SourcePortID e) > 0 \<and>
                       (TargetPortID e = ''loop-function-inline-input'' \<or>
                        TargetPortID e = ''batch-function-inline-input'')
                    then END else TargetNodeID e)
      in \<lparr>FromNode = SourceNodeID e, ToNode = toNode,
          FromPort = (if length (SourceNodeID e) > 0 then Some (SourcePortID e) else None)\<rparr>)"

subsection \<open>\<^verbatim>\<open>normalizePorts\<close>\<close>

definition PortDefault :: string where "PortDefault = ''default''"

text \<open>\<^verbatim>\<open>fmt.Sprintf(schema.PortBranchFormat, n)\<close>, the format being \<^verbatim>\<open>branch_%d\<close>.\<close>

definition PortBranch :: "64 word \<Rightarrow> string" where
  "PortBranch n = ''branch_'' @ FormatInt n"

definition HasPrefix :: "string \<Rightarrow> string \<Rightarrow> bool" where
  "HasPrefix s prefix = (length prefix \<le> length s \<and> take (length prefix) s = prefix)"

definition TrimPrefix :: "string \<Rightarrow> string \<Rightarrow> string" where
  "TrimPrefix s prefix = (if HasPrefix s prefix then drop (length prefix) s else s)"

text \<open>
  One round of the loop of \<^verbatim>\<open>normalizePorts\<close>: the connection appended to \<^verbatim>\<open>normalized\<close>, or
  the error returned. A selector port that is none of \<^verbatim>\<open>true\<close>, \<^verbatim>\<open>false\<close>, \<^verbatim>\<open>true_\<close>... leaves
  \<^verbatim>\<open>newPort\<close> at its zero value, the empty string.
\<close>

definition normalizePort ::
  "entityEnv \<Rightarrow> (string \<times> 'j Node) list \<Rightarrow> Connection \<Rightarrow> error + Connection" where
  "normalizePort E nodeMap conn =
     (case FromPort conn of
        None \<Rightarrow> Inr conn
      | Some port \<Rightarrow>
          if length port = 0 then Inr (conn\<lparr>FromPort := None\<rparr>)
          else if port = ''loop-function-inline-output'' \<or> port = ''loop-output'' \<or>
                  port = ''batch-function-inline-output'' \<or> port = ''batch-output''
          then Inr (conn\<lparr>FromPort := None\<rparr>)
          else case map_of nodeMap (FromNode conn) of
                 None \<Rightarrow> Inl (NodeNotInNodeMap (FromNode conn))
               | Some node \<Rightarrow>
                   if NodeType node = NodeTypeSelectorID E then
                     (if port = ''true'' then
                        Inr \<lparr>FromNode = FromNode conn, ToNode = ToNode conn,
                             FromPort = Some (PortBranch 0)\<rparr>
                      else if port = ''false'' then
                        Inr \<lparr>FromNode = FromNode conn, ToNode = ToNode conn,
                             FromPort = Some PortDefault\<rparr>
                      else if HasPrefix port ''true_'' then
                        (case Atoi (TrimPrefix port ''true_'') of
                           None \<Rightarrow> Inl (InvalidPortName port)
                         | Some n \<Rightarrow>
                             Inr \<lparr>FromNode = FromNode conn, ToNode = ToNode conn,
                                  FromPort = Some (PortBranch n)\<rparr>)
                      else Inr \<lparr>FromNode = FromNode conn, ToNode = ToNode conn,
                                FromPort = Some []\<rparr>)
                   else Inr \<lparr>FromNode = FromNode conn, ToNode = ToNode conn,
                             FromPort = Some port\<rparr>)"

fun normalizePorts ::
  "entityEnv \<Rightarrow> Connection list \<Rightarrow> (string \<times> 'j Node) list \<Rightarrow> error + Connection list" where
  "normalizePorts E [] nodeMap = Inr []"
| "normalizePorts E (conn # connections) nodeMap =
     (case normalizePort E nodeMap conn of
        Inl err \<Rightarrow> Inl err
      | Inr c \<Rightarrow> (case normalizePorts E connections nodeMap of
                    Inl err \<Rightarrow> Inl err
                  | Inr normalized \<Rightarrow> Inr (c # normalized)))"


subsection \<open>\<^verbatim>\<open>parseBatchMode\<close>\<close>

text \<open>
  The JSON helpers of package vo and of the JSON library, which are outside the sources
  at hand: \<^verbatim>\<open>vo.ParseVariable\<close>, \<^verbatim>\<open>sonic.MarshalString\<close> on a value of type \<^verbatim>\<open>any\<close>, and
  \<^verbatim>\<open>sonic.UnmarshalString\<close> into a \<^verbatim>\<open>[]*vo.Variable\<close>.
\<close>

record 'j voEnv =
  ParseVariable :: "'j any \<Rightarrow> error + 'j Variable"
  MarshalString :: "'j any \<Rightarrow> error + string"
  UnmarshalVariables :: "string \<Rightarrow> error + 'j Variable list"

definition emptyMeta :: "string \<Rightarrow> NodeMetaFE" where
  "emptyMeta title =
     \<lparr>Title = title, MetaDescription = [], Icon = [], SubTitle = [], MainColor = []\<rparr>"

definition literalInteger :: "64 word \<Rightarrow> 'j BlockInput" where
  "literalInteger n =
     BlockInput VariableTypeInteger 0 AnyNil
       (Some (BlockInputValue BlockInputValueTypeLiteral (AnyString (FormatInt n)) AnyNil))"

text \<open>
  The result is \<open>Return None\<close> when batch mode is not enabled (the Go function returns
  \<^verbatim>\<open>nil, false, nil\<close>) and \<open>Return (Some parentN)\<close> when it is. The title is read through
  \<^verbatim>\<open>n.Data.Meta\<close> without a nil check, after the outputs have been checked.
\<close>

definition parseBatchMode ::
  "'j voEnv \<Rightarrow> entityEnv \<Rightarrow> 'j Node \<Rightarrow> 'j Node option outcome" where
  "parseBatchMode V E n =
     (case Data n of
        None \<Rightarrow> Return None
      | Some d \<Rightarrow>
     (case Inputs d of
        None \<Rightarrow> Return None
      | Some inputs \<Rightarrow>
     (case NodeBatchInfo inputs of
        None \<Rightarrow> Return None
      | Some batchInfo \<Rightarrow>
     if \<not> BatchEnable batchInfo then Return None
     else
       let innerInput = InputParameters inputs;
           outerInput = InputLists batchInfo
       in
       if length (Outputs d) \<noteq> 1 then Fail (BatchOutputCount (length (Outputs d)))
       else
     (case ParseVariable V (Outputs d ! 0) of
        Inl err \<Rightarrow> Fail err
      | Inr v \<Rightarrow>
     if VarType v \<noteq> VariableTypeList then Fail (BatchOutputNotList (VarType v))
     else
     (case ParseVariable V (VarSchema v) of
        Inl err \<Rightarrow> Fail (BatchOutputSchemaNotVariable err)
      | Inr objV \<Rightarrow>
     if VarType objV \<noteq> VariableTypeObject then Fail (BatchOutputElementNotObject (VarType objV))
     else
     (case MarshalString V (VarSchema objV) of
        Inl err \<Rightarrow> Fail err
      | Inr objFieldStr \<Rightarrow>
     (case UnmarshalVariables V objFieldStr of
        Inl err \<Rightarrow> Fail (BatchOutputFieldsNotVariables err)
      | Inr innerOutput \<Rightarrow>
       let outerOutputP =
             Param (VarName v)
               (Some (BlockInput VariableTypeList 0 (VariablePtr objV)
                  (Some (BlockInputValue BlockInputValueTypeRef
                     (ReferencePtr \<lparr>BlockID = GenerateNodeIDForBatchMode (ID n), RefName = [],
                                    RefPath = [], RefSource = RefSourceTypeBlockOutput\<rparr>)
                     AnyNil))))
               None None [];
           outerOutput = [outerOutputP]
       in
     (case Meta d of
        None \<Rightarrow> Panic NilPointerDereference
      | Some meta \<Rightarrow>
       let parentID = ID n;
           innerID = ID n @ ''_inner'';
           innerN =
             Node innerID (NodeType n) AnyNil
               (Some \<lparr>Meta = Some (emptyMeta (Title meta @ ''_inner'')),
                      Outputs = map VariablePtr innerOutput,
                      Inputs = Some \<lparr>InputParameters = innerInput,
                                     SettingOnError = SettingOnError inputs,
                                     NodeBatchInfo = None,
                                     LLMParam = LLMParam inputs,
                                     LLM = LLM inputs,
                                     SubWorkflow = SubWorkflow inputs,
                                     PluginAPIParam = PluginAPIParam inputs,
                                     Batch = None,
                                     OtherInputs = None\<rparr>,
                      Size = AnyNil\<rparr>)
               [] [] [];
           parentN =
             Node parentID (NodeTypeBatchID E) AnyNil
               (Some \<lparr>Meta = Some (emptyMeta (Title meta)),
                      Outputs = map ParamPtr outerOutput,
                      Inputs = Some \<lparr>InputParameters = outerInput,
                                     SettingOnError = None,
                                     NodeBatchInfo = None,
                                     LLMParam = AnyNil,
                                     LLM = None,
                                     SubWorkflow = None,
                                     PluginAPIParam = None,
                                     Batch = Some \<lparr>BatchSize = Some (literalInteger (NodeBatchSize batchInfo)),
                                                    ConcurrentSize = Some (literalInteger (NodeConcurrentSize batchInfo))\<rparr>,
                                     OtherInputs = None\<rparr>,
                      Size = AnyNil\<rparr>)
               [innerN]
               [\<lparr>SourceNodeID = parentID, TargetNodeID = innerID,
                 SourcePortID = ''batch-function-inline-output'', TargetPortID = []\<rparr>,
                \<lparr>SourceNodeID = innerID, TargetNodeID = parentID,
                 SourcePortID = [], TargetPortID = ''batch-function-inline-input''\<rparr>]
               []
       in Return (Some parentN)))))))))"

subsection \<open>Lemmas on \<^verbatim>\<open>strconv\<close> and on port normalization\<close>

lemma digitOf_digitChar: "d < 10 \<Longrightarrow> digitOf (digitChar d) = Some d"
  by (simp add: digitOf_def digitChar_def Let_def)

lemma of_char_digitChar: "d < 10 \<Longrightarrow> (of_char (digitChar d) :: nat) = 48 + d"
  by (simp add: digitChar_def)

lemma digitChar_not_sign:
  assumes "d < 10"
  shows "digitChar d \<noteq> CHR ''+''" and "digitChar d \<noteq> CHR ''-''"
proof -
  have o: "(of_char (digitChar d) :: nat) = 48 + d" using assms by (rule of_char_digitChar)
  show "digitChar d \<noteq> CHR ''+''"
  proof
    assume "digitChar d = CHR ''+''"
    then have "(of_char (digitChar d) :: nat) = of_char (CHR ''+'')" by simp
    with o show False by simp
  qed
  show "digitChar d \<noteq> CHR ''-''"
  proof
    assume "digitChar d = CHR ''-''"
    then have "(of_char (digitChar d) :: nat) = of_char (CHR ''-'')" by simp
    with o show False by simp
  qed
qed

lemma parseUint_snoc:
  "parseUint (xs @ [c]) acc =
     (case parseUint xs acc of
        None \<Rightarrow> None
      | Some a \<Rightarrow> (case digitOf c of None \<Rightarrow> None | Some d \<Rightarrow> Some (a * 10 + d)))"
  by (induction xs arbitrary: acc) (simp_all split: option.splits)

lemma parseUint_digits: "parseUint (digits n) 0 = Some n"
proof (induction n rule: digits.induct)
  case (1 n)
  show ?case
  proof (cases "n < 10")
    case True
    then show ?thesis by (simp add: digits.simps [of n] digitOf_digitChar)
  next
    case False
    with 1 have "parseUint (digits (n div 10)) 0 = Some (n div 10)" by simp
    with False show ?thesis
      by (simp add: digits.simps [of n] parseUint_snoc digitOf_digitChar)
  qed
qed

lemma digits_not_empty: "digits n \<noteq> []"
  by (simp add: digits.simps [of n])

lemma hd_digits: "\<exists>d r. d < 10 \<and> digits n = digitChar d # r"
proof (induction n rule: digits.induct)
  case (1 n)
  show ?case
  proof (cases "n < 10")
    case True
    then show ?thesis by (auto simp: digits.simps [of n])
  next
    case False
    with 1 obtain d r where "d < 10" "digits (n div 10) = digitChar d # r" by blast
    with False show ?thesis by (auto simp: digits.simps [of n])
  qed
qed

lemma Atoi_digits:
  "Atoi (digits n) = (if n < 2 ^ 63 then Some (word_of_int (int n)) else None)"
proof -
  obtain d r where d: "d < 10" and e: "digits n = digitChar d # r"
    using hd_digits by blast
  have p: "parseUint (digitChar d # r) 0 = Some n"
    using parseUint_digits [of n] e by simp
  show ?thesis
    unfolding Atoi_def e using digitChar_not_sign [OF d] p
    by (simp del: parseUint.simps)
qed

lemma Atoi_minus_digits:
  "Atoi (CHR ''-'' # digits n) = (if n \<le> 2 ^ 63 then Some (word_of_int (- int n)) else None)"
  unfolding Atoi_def using digits_not_empty [of n] parseUint_digits [of n]
  by simp

lemma Atoi_FormatInt: "Atoi (FormatInt n) = Some n"
proof (cases "sint n < 0")
  case True
  have lo: "- (2 ^ 63) \<le> sint n" using sint_ge [of n] by simp
  have "nat (- sint n) \<le> 2 ^ 63" using lo by (simp add: nat_le_iff)
  moreover have "- int (nat (- sint n)) = sint n" using True by simp
  ultimately show ?thesis using True
    by (simp add: FormatInt_def Atoi_minus_digits)
next
  case False
  have hi: "sint n < 2 ^ 63" using sint_lt [of n] by simp
  have "nat (sint n) < 2 ^ 63" using hi False by (simp add: nat_less_iff)
  moreover have "int (nat (sint n)) = sint n" using False by simp
  ultimately show ?thesis using False
    by (simp add: FormatInt_def Atoi_digits)
qed

lemma digitChar_0: "digitChar 0 = CHR ''0''"
  by (simp add: digitChar_def char_of_eq_iff)

lemma digitChar_1: "digitChar 1 = CHR ''1''"
  by (simp add: digitChar_def char_of_eq_iff)

lemma FormatInt_0: "FormatInt 0 = ''0''"
  by (simp add: FormatInt_def digits.simps digitChar_0)

lemma FormatInt_1: "FormatInt 1 = ''1''"
  by code_simp

text \<open>An optionally signed, non-empty sequence of decimal digits.\<close>

definition isDigit :: "char \<Rightarrow> bool" where
  "isDigit c = (digitOf c \<noteq> None)"

definition decimalText :: "string \<Rightarrow> bool" where
  "decimalText s =
     (case s of
        [] \<Rightarrow> False
      | c # r \<Rightarrow> if c = CHR ''+'' \<or> c = CHR ''-'' then r \<noteq> [] \<and> list_all isDigit r
                else list_all isDigit s)"

lemma parseUint_Some_digits: "parseUint ds acc = Some n \<Longrightarrow> list_all isDigit ds"
  by (induction ds arbitrary: acc) (auto simp: isDigit_def split: option.splits)

lemma Atoi_Some_decimalText: "Atoi s = Some n \<Longrightarrow> decimalText s"
proof (cases s)
  case Nil
  assume "Atoi s = Some n"
  with Nil show ?thesis by (simp add: Atoi_def)
next
  case (Cons c r)
  assume a: "Atoi s = Some n"
  show ?thesis
  proof (cases "c = CHR ''+'' \<or> c = CHR ''-''")
    case True
    with a Cons obtain m where "r \<noteq> []" "parseUint r 0 = Some m"
      by (auto simp: Atoi_def split: if_splits option.splits)
    with True Cons show ?thesis
      by (auto simp: decimalText_def dest: parseUint_Some_digits)
  next
    case False
    with a Cons obtain m where "parseUint s 0 = Some m"
      by (auto simp: Atoi_def split: if_splits option.splits)
    then have "list_all isDigit s" by (rule parseUint_Some_digits)
    with False Cons show ?thesis
      by (simp add: decimalText_def)
  qed
qed

lemma HasPrefix_append: "HasPrefix (p @ s) p"
  by (simp add: HasPrefix_def)

lemma TrimPrefix_append: "TrimPrefix (p @ s) p = s"
  by (simp add: TrimPrefix_def HasPrefix_def)

lemma normalizePort_nil:
  "FromPort conn = None \<or> FromPort conn = Some [] \<Longrightarrow>
   normalizePort E nodeMap conn = Inr (conn\<lparr>FromPort := None\<rparr>)"
  by (auto simp: normalizePort_def)

lemma normalizePort_inline:
  "FromPort conn = Some port \<Longrightarrow>
   port \<in> {''loop-function-inline-output'', ''loop-output'',
            ''batch-function-inline-output'', ''batch-output''} \<Longrightarrow>
   normalizePort E nodeMap conn = Inr (conn\<lparr>FromPort := None\<rparr>)"
  by (auto simp: normalizePort_def)

lemma true_prefix_plain:
  "''true_'' @ s \<noteq> [] \<and> ''true_'' @ s \<noteq> ''true'' \<and> ''true_'' @ s \<noteq> ''false'' \<and>
   ''true_'' @ s \<notin> {''loop-function-inline-output'', ''loop-output'',
            ''batch-function-inline-output'', ''batch-output''}"
  by simp

lemma normalizePort_selector_numbered:
  assumes "map_of nodeMap (FromNode conn) = Some node"
    and "NodeType node = NodeTypeSelectorID E"
    and "FromPort conn = Some (''true_'' @ s)"
  shows "normalizePort E nodeMap conn =
           (case Atoi s of
              None \<Rightarrow> Inl (InvalidPortName (''true_'' @ s))
            | Some n \<Rightarrow> Inr (conn\<lparr>FromPort := Some (PortBranch n)\<rparr>))"
proof -
  have h: "HasPrefix (''true_'' @ s) ''true_''" by (rule HasPrefix_append)
  have t: "TrimPrefix (''true_'' @ s) ''true_'' = s" by (rule TrimPrefix_append)
  show ?thesis
    unfolding normalizePort_def using assms h t true_prefix_plain [of s]
    by (cases "Atoi s") (simp_all del: append.simps)
qed





lemma normalizePorts_Cons_Inr:
  "normalizePorts E (c # cs) nodeMap = Inr out \<longleftrightarrow>
     (\<exists>c' ns. out = c' # ns \<and> normalizePort E nodeMap c = Inr c' \<and>
        normalizePorts E cs nodeMap = Inr ns)"
  by (cases "normalizePort E nodeMap c"; cases "normalizePorts E cs nodeMap") auto

lemma normalizePorts_list_all2:
  "normalizePorts E conns nodeMap = Inr normalized \<longleftrightarrow>
     list_all2 (\<lambda>c c'. normalizePort E nodeMap c = Inr c') conns normalized"
proof (induction conns arbitrary: normalized)
  case Nil
  show ?case by auto
next
  case (Cons c cs)
  show ?case
    unfolding normalizePorts_Cons_Inr list_all2_Cons1 Cons.IH by blast
qed


text \<open>
  The integer an optionally signed sequence of decimal digits denotes, and the range of a
  Go \<^verbatim>\<open>int\<close> (64 bits).
\<close>

definition digitsValue :: "string \<Rightarrow> nat" where
  "digitsValue ds = foldl (\<lambda>acc c. acc * 10 + (of_char c - 48)) 0 ds"

definition decimalValue :: "string \<Rightarrow> int" where
  "decimalValue s =
     (case s of
        [] \<Rightarrow> 0
      | c # r \<Rightarrow> if c = CHR ''-'' then - int (digitsValue r)
                else if c = CHR ''+'' then int (digitsValue r)
                else int (digitsValue s))"

definition inIntRange :: "int \<Rightarrow> bool" where
  "inIntRange v \<longleftrightarrow> - (2 ^ 63) \<le> v \<and> v < 2 ^ 63"

lemma parseUint_value:
  "parseUint ds acc =
     (if list_all isDigit ds
      then Some (foldl (\<lambda>acc c. acc * 10 + (of_char c - 48)) acc ds) else None)"
  by (induction ds arbitrary: acc) (auto simp: isDigit_def digitOf_def Let_def split: if_splits)

lemma Atoi_decimalValue:
  "Atoi s =
     (if decimalText s \<and> inIntRange (decimalValue s)
      then Some (word_of_int (decimalValue s)) else None)"
proof (cases s)
  case Nil
  then show ?thesis by (simp add: Atoi_def decimalText_def)
next
  case (Cons c r)
  show ?thesis
  proof (cases "c = CHR ''+'' \<or> c = CHR ''-''")
    case True
    with Cons show ?thesis
      by (auto simp: Atoi_def decimalText_def decimalValue_def digitsValue_def inIntRange_def
            parseUint_value)
  next
    case False
    with Cons show ?thesis
      by (auto simp: Atoi_def decimalText_def decimalValue_def digitsValue_def inIntRange_def
            parseUint_value)
  qed
qed

definition inlinePorts :: "string set" where
  "inlinePorts = {''loop-function-inline-output'', ''loop-output'',
                  ''batch-function-inline-output'', ''batch-output''}"

text \<open>
  C6. Port normalization maps a connection's source port as follows: a nil or empty port
  becomes nil; the four inline ports of loop and batch nodes become nil; on a connection
  leaving a selector node, \<^verbatim>\<open>true\<close> becomes \<^verbatim>\<open>branch_0\<close>, \<^verbatim>\<open>false\<close> becomes \<^verbatim>\<open>default\<close>, and
  \<^verbatim>\<open>true_\<close> followed by a suffix becomes a branch port exactly when the suffix is an
  optionally signed sequence of decimal digits whose value fits a Go \<^verbatim>\<open>int\<close> (64 bits): the
  port is then \<^verbatim>\<open>branch_\<close> followed by that value as \<^verbatim>\<open>%d\<close> prints it (so \<^verbatim>\<open>true_N\<close> becomes
  \<^verbatim>\<open>branch_N\<close> for every Go integer \<open>N\<close> as Go prints it, and \<^verbatim>\<open>true_007\<close> becomes
  \<^verbatim>\<open>branch_7\<close>); every other suffix, be it not a decimal number or a decimal number outside
  that range, gives the invalid-port error; the port of a connection leaving any other
  node is kept. \<^verbatim>\<open>normalizePorts\<close> succeeds exactly when every connection normalizes, and
  then returns the normalized connections in order.
\<close>

theorem normalizePorts_port_normalization:
  "(FromPort conn = None \<or> FromPort conn = Some [] \<longrightarrow>
      normalizePort E nodeMap conn = Inr (conn\<lparr>FromPort := None\<rparr>)) \<and>
   (FromPort conn = Some port \<and> port \<in> inlinePorts \<longrightarrow>
      normalizePort E nodeMap conn = Inr (conn\<lparr>FromPort := None\<rparr>)) \<and>
   (map_of nodeMap (FromNode conn) = Some node \<and> NodeType node = NodeTypeSelectorID E \<longrightarrow>
      (FromPort conn = Some ''true'' \<longrightarrow>
         normalizePort E nodeMap conn = Inr (conn\<lparr>FromPort := Some ''branch_0''\<rparr>)) \<and>
      (FromPort conn = Some ''false'' \<longrightarrow>
         normalizePort E nodeMap conn = Inr (conn\<lparr>FromPort := Some ''default''\<rparr>)) \<and>
      (FromPort conn = Some (''true_'' @ FormatInt n) \<longrightarrow>
         normalizePort E nodeMap conn = Inr (conn\<lparr>FromPort := Some (''branch_'' @ FormatInt n)\<rparr>)) \<and>
      (FromPort conn = Some (''true_'' @ s) \<and> decimalText s \<and> inIntRange (decimalValue s) \<longrightarrow>
         normalizePort E nodeMap conn =
           Inr (conn\<lparr>FromPort := Some (''branch_'' @ FormatInt (word_of_int (decimalValue s)))\<rparr>)) \<and>
      (FromPort conn = Some (''true_'' @ s) \<and> \<not> (decimalText s \<and> inIntRange (decimalValue s)) \<longrightarrow>
         normalizePort E nodeMap conn = Inl (InvalidPortName (''true_'' @ s)))) \<and>
   (map_of nodeMap (FromNode conn) = Some node \<and> NodeType node \<noteq> NodeTypeSelectorID E \<and>
    FromPort conn = Some port \<and> port \<noteq> [] \<and> port \<notin> inlinePorts \<longrightarrow>
      normalizePort E nodeMap conn = Inr conn) \<and>
   (normalizePorts E conns nodeMap = Inr normalized \<longleftrightarrow>
      list_all2 (\<lambda>c c'. normalizePort E nodeMap c = Inr c') conns normalized)"
proof (intro conjI impI)
  assume "FromPort conn = None \<or> FromPort conn = Some []"
  then show "normalizePort E nodeMap conn = Inr (conn\<lparr>FromPort := None\<rparr>)"
    by (rule normalizePort_nil)
next
  assume "FromPort conn = Some port \<and> port \<in> inlinePorts"
  then show "normalizePort E nodeMap conn = Inr (conn\<lparr>FromPort := None\<rparr>)"
    using normalizePort_inline [of conn port E nodeMap] by (simp add: inlinePorts_def)
next
  assume "map_of nodeMap (FromNode conn) = Some node \<and> NodeType node = NodeTypeSelectorID E"
    and "FromPort conn = Some ''true''"
  then show "normalizePort E nodeMap conn = Inr (conn\<lparr>FromPort := Some ''branch_0''\<rparr>)"
    by (simp add: normalizePort_def PortBranch_def FormatInt_0)
next
  assume "map_of nodeMap (FromNode conn) = Some node \<and> NodeType node = NodeTypeSelectorID E"
    and "FromPort conn = Some ''false''"
  then show "normalizePort E nodeMap conn = Inr (conn\<lparr>FromPort := Some ''default''\<rparr>)"
    by (simp add: normalizePort_def PortDefault_def)
next
  assume sel: "map_of nodeMap (FromNode conn) = Some node \<and> NodeType node = NodeTypeSelectorID E"
    and p: "FromPort conn = Some (''true_'' @ FormatInt n)"
  from sel have "map_of nodeMap (FromNode conn) = Some node"
    and "NodeType node = NodeTypeSelectorID E" by simp_all
  from normalizePort_selector_numbered [OF this p]
  show "normalizePort E nodeMap conn = Inr (conn\<lparr>FromPort := Some (''branch_'' @ FormatInt n)\<rparr>)"
    by (simp add: Atoi_FormatInt PortBranch_def)
next
  assume sel: "map_of nodeMap (FromNode conn) = Some node \<and> NodeType node = NodeTypeSelectorID E"
    and p: "FromPort conn = Some (''true_'' @ s) \<and> decimalText s \<and> inIntRange (decimalValue s)"
  from sel have a: "map_of nodeMap (FromNode conn) = Some node"
    and b: "NodeType node = NodeTypeSelectorID E" by simp_all
  from p have c: "FromPort conn = Some (''true_'' @ s)" by simp
  from p have "Atoi s = Some (word_of_int (decimalValue s))" by (simp add: Atoi_decimalValue)
  with normalizePort_selector_numbered [OF a b c]
  show "normalizePort E nodeMap conn =
          Inr (conn\<lparr>FromPort := Some (''branch_'' @ FormatInt (word_of_int (decimalValue s)))\<rparr>)"
    by (simp add: PortBranch_def)
next
  assume sel: "map_of nodeMap (FromNode conn) = Some node \<and> NodeType node = NodeTypeSelectorID E"
    and p: "FromPort conn = Some (''true_'' @ s) \<and> \<not> (decimalText s \<and> inIntRange (decimalValue s))"
  from sel have a: "map_of nodeMap (FromNode conn) = Some node"
    and b: "NodeType node = NodeTypeSelectorID E" by simp_all
  from p have c: "FromPort conn = Some (''true_'' @ s)" by simp
  from p have "Atoi s = None" by (simp add: Atoi_decimalValue)
  with normalizePort_selector_numbered [OF a b c]
  show "normalizePort E nodeMap conn = Inl (InvalidPortName (''true_'' @ s))"
    by simp
next
  assume "map_of nodeMap (FromNode conn) = Some node \<and> NodeType node \<noteq> NodeTypeSelectorID E \<and>
    FromPort conn = Some port \<and> port \<noteq> [] \<and> port \<notin> inlinePorts"
  then show "normalizePort E nodeMap conn = Inr conn"
    by (simp add: normalizePort_def inlinePorts_def)
next
  show "normalizePorts E conns nodeMap = Inr normalized \<longleftrightarrow>
      list_all2 (\<lambda>c c'. normalizePort E nodeMap c = Inr c') conns normalized"
    by (rule normalizePorts_list_all2)
qed

definition exampleEntity :: entityEnv where
  "exampleEntity =
     \<lparr>NodeTypeEntryID = ''1'', NodeTypeExitID = ''2'', NodeTypeSelectorID = ''8'',
      NodeTypeBreakID = ''19'',
      NodeTypeContinueID = ''29'', NodeTypeBatchID = ''28''\<rparr>"

definition exampleSelector :: "unit Node" where
  "exampleSelector = Node ''sel'' ''8'' AnyNil None [] [] []"

definition exampleNodeMap :: "(string \<times> unit Node) list" where
  "exampleNodeMap = [(''sel'', exampleSelector)]"

definition selectorConnection :: "string \<Rightarrow> string \<Rightarrow> Connection" where
  "selectorConnection to port = \<lparr>FromNode = ''sel'', ToNode = to, FromPort = Some port\<rparr>"

theorem normalizePorts_witness:
  "normalizePort exampleEntity exampleNodeMap (selectorConnection ''b'' ''true_1'') =
     Inr (selectorConnection ''b'' ''branch_1'') \<and>
   normalizePort exampleEntity exampleNodeMap (selectorConnection ''b'' ''true_007'') =
     Inr (selectorConnection ''b'' ''branch_7'') \<and>
   normalizePorts exampleEntity
     [selectorConnection ''a'' ''true'', selectorConnection ''b'' ''true_1'',
      selectorConnection ''c'' ''false''] exampleNodeMap =
     Inr [selectorConnection ''a'' ''branch_0'', selectorConnection ''b'' ''branch_1'',
          selectorConnection ''c'' ''default'']"
proof -
  let ?c = "selectorConnection ''b'' ''true_1''"
  let ?d = "selectorConnection ''b'' ''true_007''"
  have sel: "map_of exampleNodeMap (FromNode ?c) = Some exampleSelector \<and>
             NodeType exampleSelector = NodeTypeSelectorID exampleEntity"
    by (simp add: exampleNodeMap_def selectorConnection_def exampleSelector_def exampleEntity_def)
  have port: "FromPort ?c = Some (''true_'' @ FormatInt 1)"
    by (simp add: selectorConnection_def FormatInt_1)
  from normalizePorts_port_normalization
         [of ?c exampleEntity exampleNodeMap "[]" exampleSelector 1 "[]" "[]" "[]"]
  have "map_of exampleNodeMap (FromNode ?c) = Some exampleSelector \<and>
          NodeType exampleSelector = NodeTypeSelectorID exampleEntity \<longrightarrow>
        (FromPort ?c = Some (''true_'' @ FormatInt 1) \<longrightarrow>
           normalizePort exampleEntity exampleNodeMap ?c =
             Inr (?c\<lparr>FromPort := Some (''branch_'' @ FormatInt 1)\<rparr>))"
    by blast
  with sel port have one: "normalizePort exampleEntity exampleNodeMap ?c =
             Inr (?c\<lparr>FromPort := Some (''branch_'' @ FormatInt 1)\<rparr>)"
    by blast
  have "?c\<lparr>FromPort := Some (''branch_'' @ FormatInt 1)\<rparr> = selectorConnection ''b'' ''branch_1''"
    by (simp add: selectorConnection_def FormatInt_1)
  with one have first: "normalizePort exampleEntity exampleNodeMap ?c =
      Inr (selectorConnection ''b'' ''branch_1'')" by simp
  have seld: "map_of exampleNodeMap (FromNode ?d) = Some exampleSelector \<and>
             NodeType exampleSelector = NodeTypeSelectorID exampleEntity"
    by (simp add: exampleNodeMap_def selectorConnection_def exampleSelector_def exampleEntity_def)
  have v7: "decimalValue ''007'' = 7"
    by (simp add: decimalValue_def digitsValue_def)
  have portd: "FromPort ?d = Some (''true_'' @ ''007'') \<and> decimalText ''007'' \<and>
               inIntRange (decimalValue ''007'')"
    unfolding v7 by (simp add: selectorConnection_def decimalText_def isDigit_def digitOf_def
        inIntRange_def)
  from normalizePorts_port_normalization
         [of ?d exampleEntity exampleNodeMap "[]" exampleSelector 1 "''007''" "[]" "[]"]
  have "map_of exampleNodeMap (FromNode ?d) = Some exampleSelector \<and>
          NodeType exampleSelector = NodeTypeSelectorID exampleEntity \<longrightarrow>
        (FromPort ?d = Some (''true_'' @ ''007'') \<and> decimalText ''007'' \<and>
           inIntRange (decimalValue ''007'') \<longrightarrow>
           normalizePort exampleEntity exampleNodeMap ?d =
             Inr (?d\<lparr>FromPort := Some (''branch_'' @ FormatInt (word_of_int (decimalValue ''007'')))\<rparr>))"
    by blast
  with seld portd have "normalizePort exampleEntity exampleNodeMap ?d =
      Inr (?d\<lparr>FromPort := Some (''branch_'' @ FormatInt (word_of_int (decimalValue ''007'')))\<rparr>)"
    by blast
  moreover have "FormatInt (word_of_int (decimalValue ''007'')) = ''7''"
    unfolding v7 by code_simp
  ultimately have second: "normalizePort exampleEntity exampleNodeMap ?d =
      Inr (selectorConnection ''b'' ''branch_7'')"
    by (simp add: selectorConnection_def)
  have t: "normalizePort exampleEntity exampleNodeMap (selectorConnection ''a'' ''true'') =
      Inr (selectorConnection ''a'' ''branch_0'')"
    by (simp add: normalizePort_def selectorConnection_def exampleNodeMap_def exampleSelector_def
        exampleEntity_def PortBranch_def FormatInt_0)
  have f: "normalizePort exampleEntity exampleNodeMap (selectorConnection ''c'' ''false'') =
      Inr (selectorConnection ''c'' ''default'')"
    by (simp add: normalizePort_def selectorConnection_def exampleNodeMap_def exampleSelector_def
        exampleEntity_def PortDefault_def)
  show ?thesis using first second t f by simp
qed

text \<open>
  The suffix \<^verbatim>\<open>9223372036854775808\<close> is a decimal integer, one above the largest Go \<^verbatim>\<open>int\<close>:
  \<^verbatim>\<open>strconv.Atoi\<close> refuses it, and the port is not normalized to a branch.
\<close>

theorem normalizePorts_decimal_counterexample:
  "decimalText ''9223372036854775808'' \<and>
   normalizePort exampleEntity exampleNodeMap
     (selectorConnection ''b'' ''true_9223372036854775808'') =
     Inl (InvalidPortName ''true_9223372036854775808'')"
proof -
  have "Atoi ''9223372036854775808'' = None"
    by (simp add: Atoi_decimalValue decimalValue_def digitsValue_def inIntRange_def)
  with normalizePort_selector_numbered
         [of exampleNodeMap "selectorConnection ''b'' ''true_9223372036854775808''"
             exampleSelector exampleEntity "''9223372036854775808''"]
  have "normalizePort exampleEntity exampleNodeMap
          (selectorConnection ''b'' ''true_9223372036854775808'') =
        Inl (InvalidPortName ''true_9223372036854775808'')"
    by (simp add: exampleNodeMap_def selectorConnection_def exampleSelector_def exampleEntity_def)
  moreover have "decimalText ''9223372036854775808''"
    by code_simp
  ultimately show ?thesis by simp
qed

subsection \<open>Inline input edges\<close>

definition inlineInputPorts :: "string set" where
  "inlineInputPorts = {''loop-function-inline-input'', ''batch-function-inline-input''}"

lemma EdgeToConnection_ToNode:
  "ToNode (EdgeToConnection e) =
     (if SourcePortID e \<noteq> [] \<and> TargetPortID e \<in> inlineInputPorts then END else TargetNodeID e)"
  by (simp add: EdgeToConnection_def inlineInputPorts_def)

lemma parseBatchMode_edges:
  assumes "parseBatchMode V E n = Return (Some p)"
  shows "NodeEdges p =
           [\<lparr>SourceNodeID = ID n, TargetNodeID = ID n @ ''_inner'',
             SourcePortID = ''batch-function-inline-output'', TargetPortID = []\<rparr>,
            \<lparr>SourceNodeID = ID n @ ''_inner'', TargetNodeID = ID n,
             SourcePortID = [], TargetPortID = ''batch-function-inline-input''\<rparr>]"
  using assms unfolding parseBatchMode_def Let_def
  by (auto split: option.splits if_splits sum.splits)


subsection \<open>An example of batch-mode expansion\<close>

text \<open>
  A node \<open>N\<close> with batch mode enabled (batch size 4, concurrent size 2, input list
  \<open>items\<close>) and the single output \<open>results\<close>, a list of objects with the field \<open>answer\<close>.
  The JSON helpers of the example read a value that already is a \<^verbatim>\<open>*Variable\<close> and decode
  the object's field list.
\<close>

definition exampleFields :: "unit Variable list" where
  "exampleFields = [Variable ''answer'' ''string'' False 0 AnyNil [] False AnyNil]"

definition exampleObject :: "unit Variable" where
  "exampleObject = Variable [] ''object'' False 0 (AnyJSON ()) [] False AnyNil"

definition exampleVo :: "unit voEnv" where
  "exampleVo =
     \<lparr>ParseVariable = (\<lambda>x. case x of VariablePtr v \<Rightarrow> Inr v
                                   | _ \<Rightarrow> Inl (External ''invalid content type'')),
      MarshalString = (\<lambda>x. Inr ''fields''),
      UnmarshalVariables = (\<lambda>s. Inr exampleFields)\<rparr>"

definition exampleInputs :: "unit Inputs" where
  "exampleInputs =
     \<lparr>InputParameters = [Param ''question'' None None None []],
      SettingOnError = None,
      NodeBatchInfo = Some \<lparr>BatchEnable = True, NodeBatchSize = 4, NodeConcurrentSize = 2,
                            InputLists = [Param ''items'' None None None []]\<rparr>,
      LLMParam = AnyNil, LLM = None, SubWorkflow = None, PluginAPIParam = None,
      Batch = None, OtherInputs = None\<rparr>"

definition exampleBatchData :: "NodeMetaFE option \<Rightarrow> unit Data" where
  "exampleBatchData meta =
     \<lparr>Meta = meta,
      Outputs = [VariablePtr (Variable ''results'' ''list'' False 0 (VariablePtr exampleObject)
                                [] False AnyNil)],
      Inputs = Some exampleInputs,
      Size = AnyNil\<rparr>"

definition exampleBatchNode :: "unit Node" where
  "exampleBatchNode =
     Node ''N'' ''3'' AnyNil (Some (exampleBatchData (Some (emptyMeta ''LLM'')))) [] [] []"

definition exampleInner :: "unit Node" where
  "exampleInner =
     Node ''N_inner'' ''3'' AnyNil
       (Some \<lparr>Meta = Some (emptyMeta ''LLM_inner''),
              Outputs = map VariablePtr exampleFields,
              Inputs = Some \<lparr>InputParameters = [Param ''question'' None None None []],
                             SettingOnError = None, NodeBatchInfo = None, LLMParam = AnyNil,
                             LLM = None, SubWorkflow = None, PluginAPIParam = None,
                             Batch = None, OtherInputs = None\<rparr>,
              Size = AnyNil\<rparr>)
       [] [] []"

definition exampleParent :: "unit Node" where
  "exampleParent =
     Node ''N'' ''28'' AnyNil
       (Some \<lparr>Meta = Some (emptyMeta ''LLM''),
              Outputs =
                [ParamPtr (Param ''results''
                   (Some (BlockInput ''list'' 0 (VariablePtr exampleObject)
                      (Some (BlockInputValue ''ref''
                         (ReferencePtr \<lparr>BlockID = ''N_inner'', RefName = [], RefPath = [],
                                        RefSource = ''block-output''\<rparr>) AnyNil))))
                   None None [])],
              Inputs = Some \<lparr>InputParameters = [Param ''items'' None None None []],
                             SettingOnError = None, NodeBatchInfo = None, LLMParam = AnyNil,
                             LLM = None, SubWorkflow = None, PluginAPIParam = None,
                             Batch = Some \<lparr>BatchSize = Some (BlockInput ''integer'' 0 AnyNil
                                              (Some (BlockInputValue ''literal'' (AnyString ''4'') AnyNil))),
                                            ConcurrentSize = Some (BlockInput ''integer'' 0 AnyNil
                                              (Some (BlockInputValue ''literal'' (AnyString ''2'') AnyNil)))\<rparr>,
                             OtherInputs = None\<rparr>,
              Size = AnyNil\<rparr>)
       [exampleInner]
       [\<lparr>SourceNodeID = ''N'', TargetNodeID = ''N_inner'',
         SourcePortID = ''batch-function-inline-output'', TargetPortID = []\<rparr>,
        \<lparr>SourceNodeID = ''N_inner'', TargetNodeID = ''N'',
         SourcePortID = [], TargetPortID = ''batch-function-inline-input''\<rparr>]
       []"

lemma FormatInt_4: "FormatInt 4 = ''4''"
  by code_simp

lemma FormatInt_2: "FormatInt 2 = ''2''"
  by code_simp

lemma parseBatchMode_example:
  "parseBatchMode exampleVo exampleEntity exampleBatchNode = Return (Some exampleParent)"
  by (simp add: parseBatchMode_def exampleVo_def exampleEntity_def exampleBatchNode_def
      exampleBatchData_def exampleInputs_def exampleObject_def exampleParent_def exampleInner_def
      GenerateNodeIDForBatchMode_def literalInteger_def FormatInt_4 FormatInt_2
      VariableTypeList_def VariableTypeObject_def VariableTypeInteger_def
      BlockInputValueTypeRef_def BlockInputValueTypeLiteral_def RefSourceTypeBlockOutput_def
      emptyMeta_def Let_def)


text \<open>
  C7 (as amended). A canvas edge whose source port is not empty and whose target port is
  \<^verbatim>\<open>loop-function-inline-input\<close> or \<^verbatim>\<open>batch-function-inline-input\<close> gives a connection whose
  \<open>ToNode\<close> is \<open>END\<close>; an edge with an empty source port, or with another target port,
  keeps its target node. The two edges generated by batch-mode expansion give the
  connections parent to inner and inner to parent: the inner-to-parent edge carries no
  source port, so its connection keeps the parent as \<open>ToNode\<close>.
\<close>

theorem EdgeToConnection_inline_input:
  "(SourcePortID e \<noteq> [] \<and> TargetPortID e \<in> inlineInputPorts \<longrightarrow>
      ToNode (EdgeToConnection e) = END) \<and>
   (SourcePortID e = [] \<or> TargetPortID e \<notin> inlineInputPorts \<longrightarrow>
      ToNode (EdgeToConnection e) = TargetNodeID e) \<and>
   (parseBatchMode V E n = Return (Some p) \<longrightarrow>
      map EdgeToConnection (NodeEdges p) =
        [\<lparr>FromNode = ID n, ToNode = ID n @ ''_inner'',
          FromPort = (if ID n = [] then None else Some ''batch-function-inline-output'')\<rparr>,
         \<lparr>FromNode = ID n @ ''_inner'', ToNode = ID n, FromPort = Some []\<rparr>])"
proof (intro conjI impI)
  assume "SourcePortID e \<noteq> [] \<and> TargetPortID e \<in> inlineInputPorts"
  then show "ToNode (EdgeToConnection e) = END" by (simp add: EdgeToConnection_ToNode)
next
  assume "SourcePortID e = [] \<or> TargetPortID e \<notin> inlineInputPorts"
  then show "ToNode (EdgeToConnection e) = TargetNodeID e"
    by (auto simp: EdgeToConnection_ToNode)
next
  assume "parseBatchMode V E n = Return (Some p)"
  then have "NodeEdges p =
           [\<lparr>SourceNodeID = ID n, TargetNodeID = ID n @ ''_inner'',
             SourcePortID = ''batch-function-inline-output'', TargetPortID = []\<rparr>,
            \<lparr>SourceNodeID = ID n @ ''_inner'', TargetNodeID = ID n,
             SourcePortID = [], TargetPortID = ''batch-function-inline-input''\<rparr>]"
    by (rule parseBatchMode_edges)
  then show "map EdgeToConnection (NodeEdges p) =
        [\<lparr>FromNode = ID n, ToNode = ID n @ ''_inner'',
          FromPort = (if ID n = [] then None else Some ''batch-function-inline-output'')\<rparr>,
         \<lparr>FromNode = ID n @ ''_inner'', ToNode = ID n, FromPort = Some []\<rparr>]"
    by (simp add: EdgeToConnection_def)
qed

definition exampleLoopEdge :: Edge where
  "exampleLoopEdge =
     \<lparr>SourceNodeID = ''child'', TargetNodeID = ''loop'',
      SourcePortID = ''out'', TargetPortID = ''loop-function-inline-input''\<rparr>"

definition exampleInnerToParentEdge :: Edge where
  "exampleInnerToParentEdge =
     \<lparr>SourceNodeID = ''N_inner'', TargetNodeID = ''N'',
      SourcePortID = [], TargetPortID = ''batch-function-inline-input''\<rparr>"

theorem EdgeToConnection_inline_input_witness:
  "SourcePortID exampleLoopEdge \<noteq> [] \<and> TargetPortID exampleLoopEdge \<in> inlineInputPorts \<and>
   ToNode (EdgeToConnection exampleLoopEdge) = END \<and>
   SourcePortID exampleInnerToParentEdge = [] \<and>
   ToNode (EdgeToConnection exampleInnerToParentEdge) = ''N'' \<and>
   parseBatchMode exampleVo exampleEntity exampleBatchNode = Return (Some exampleParent) \<and>
   map EdgeToConnection (NodeEdges exampleParent) =
     [\<lparr>FromNode = ''N'', ToNode = ''N_inner'', FromPort = Some ''batch-function-inline-output''\<rparr>,
      \<lparr>FromNode = ''N_inner'', ToNode = ''N'', FromPort = Some []\<rparr>]"
proof -
  have a: "SourcePortID exampleLoopEdge \<noteq> [] \<and> TargetPortID exampleLoopEdge \<in> inlineInputPorts"
    by (simp add: exampleLoopEdge_def inlineInputPorts_def)
  have b: "SourcePortID exampleInnerToParentEdge = [] \<or>
           TargetPortID exampleInnerToParentEdge \<notin> inlineInputPorts"
    by (simp add: exampleInnerToParentEdge_def)
  note c = parseBatchMode_example
  have r1: "ToNode (EdgeToConnection exampleLoopEdge) = END"
    using EdgeToConnection_inline_input
            [of exampleLoopEdge exampleVo exampleEntity exampleBatchNode exampleParent] a
    by blast
  have r2: "ToNode (EdgeToConnection exampleInnerToParentEdge) =
             TargetNodeID exampleInnerToParentEdge"
    using EdgeToConnection_inline_input
            [of exampleInnerToParentEdge exampleVo exampleEntity exampleBatchNode exampleParent] b
    by blast
  have r3: "map EdgeToConnection (NodeEdges exampleParent) =
        [\<lparr>FromNode = ID exampleBatchNode, ToNode = ID exampleBatchNode @ ''_inner'',
          FromPort = (if ID exampleBatchNode = [] then None
                      else Some ''batch-function-inline-output'')\<rparr>,
         \<lparr>FromNode = ID exampleBatchNode @ ''_inner'', ToNode = ID exampleBatchNode,
          FromPort = Some []\<rparr>]"
    using EdgeToConnection_inline_input
            [of exampleLoopEdge exampleVo exampleEntity exampleBatchNode exampleParent] c
    by blast
  from r2 have r2': "ToNode (EdgeToConnection exampleInnerToParentEdge) = ''N''"
    by (simp add: exampleInnerToParentEdge_def)
  from r3 have r3': "map EdgeToConnection (NodeEdges exampleParent) =
     [\<lparr>FromNode = ''N'', ToNode = ''N_inner'', FromPort = Some ''batch-function-inline-output''\<rparr>,
      \<lparr>FromNode = ''N_inner'', ToNode = ''N'', FromPort = Some []\<rparr>]"
    by (simp add: exampleBatchNode_def)
  show ?thesis using a r1 r2' r3' c by (simp add: exampleInnerToParentEdge_def)
qed

text \<open>
  The claim as stated fails on the inner-to-parent edge that batch-mode expansion
  generates for the example node \<open>N\<close>: its target port is \<^verbatim>\<open>batch-function-inline-input\<close>,
  and the connection made from it ends at \<open>N\<close>, not at \<open>END\<close>.
\<close>

definition expandedEdges :: "'j Node option outcome \<Rightarrow> Edge list" where
  "expandedEdges r = (case r of Return (Some p) \<Rightarrow> NodeEdges p | _ \<Rightarrow> [])"

theorem inline_input_counterexample:
  "expandedEdges (parseBatchMode exampleVo exampleEntity exampleBatchNode) ! 1 =
     exampleInnerToParentEdge \<and>
   TargetPortID exampleInnerToParentEdge = ''batch-function-inline-input'' \<and>
   ToNode (EdgeToConnection exampleInnerToParentEdge) = ''N'' \<and>
   ToNode (EdgeToConnection exampleInnerToParentEdge) \<noteq> END"
  by (simp add: parseBatchMode_example expandedEdges_def exampleParent_def
      exampleInnerToParentEdge_def EdgeToConnection_def END_def)

section \<open>The workflow service (package service)\<close>

subsection \<open>Drafts, metadata and the repository\<close>

text \<open>
  The records of package vo the service reads and writes (the fields it uses), and the
  repository behind \<^verbatim>\<open>impl.repo\<close>, whose implementation is outside the sources at hand: a
  record of operations on a repository state \<open>'s\<close>. A failing operation returns an error;
  \<^verbatim>\<open>gorm.ErrRecordNotFound\<close> is \<open>RecordNotFound\<close>.
\<close>

record Meta =
  LatestPublishedVersion :: "string option"

record DraftInfo =
  Canvas :: string
  TestRunSuccess :: bool
  Modified :: bool
  InputParamsStr :: string
  OutputParamsStr :: string
  CommitID :: string

record VersionInfo =
  Version :: string
  VersionDescription :: string
  VersionCreatorID :: "64 word"
  VersionCanvas :: string
  VersionInputParamsStr :: string
  VersionOutputParamsStr :: string
  VersionCommitID :: string

record PublishPolicy =
  PolicyID :: "64 word"
  PolicyVersion :: string
  PolicyVersionDescription :: string
  PolicyCreatorID :: "64 word"
  PolicyCommitID :: string
  Force :: bool

datatype QueryType = FromDraft | FromSpecificVersion | FromLatestVersion

record GetPolicy =
  GetID :: "64 word"
  QType :: QueryType
  GetVersion :: string

text \<open>
  \<^verbatim>\<open>entity.Workflow\<close>: the embedded \<^verbatim>\<open>*vo.CanvasInfo\<close> and \<^verbatim>\<open>*vo.VersionMeta\<close> are pointers and
  may be nil.
\<close>

record Workflow =
  WorkflowEntityID :: "64 word"
  WorkflowCommitID :: string
  WorkflowSpaceID :: "64 word"
  WorkflowAppID :: "64 word option"
  WorkflowCanvas :: "string option"
  WorkflowVersionMeta :: "string option"

record ('s, 'j) repository =
  GetMeta :: "'s \<Rightarrow> 64 word \<Rightarrow> error + Meta"
  DraftV2 :: "'s \<Rightarrow> 64 word \<Rightarrow> string \<Rightarrow> error + DraftInfo"
  GenID :: "'s \<Rightarrow> (error + 64 word) \<times> 's"
  CreateOrUpdateDraft :: "'s \<Rightarrow> 64 word \<Rightarrow> DraftInfo \<Rightarrow> error + 's"
  CreateVersion :: "'s \<Rightarrow> 64 word \<Rightarrow> VersionInfo \<Rightarrow> 'j \<Rightarrow> error + 's"
  GetEntity :: "'s \<Rightarrow> GetPolicy \<Rightarrow> error + Workflow"

text \<open>
  What the service calls outside the sources at hand, besides the repository: the JSON
  library on canvases (\<^verbatim>\<open>UnmarshalString\<close> gives the error, if any, and the canvas left in
  the target variable), the converters to named type information (opaque values in
  \<open>'j\<close>) and their encoding, \<^verbatim>\<open>canvasToRefs\<close>, and the canvas compiler
  \<^verbatim>\<open>adaptor.CanvasToWorkflowSchema\<close> as it answers in a repository state.
\<close>

record ('s, 'j, 'a) serviceEnv =
  UnmarshalCanvas :: "string \<Rightarrow> error option \<times> 'j Canvas"
  MarshalCanvas :: "'j Canvas \<Rightarrow> error + string"
  VariableToNamedTypeInfo :: "'j Variable \<Rightarrow> error + 'j"
  BlockInputToNamedTypeInfo :: "string \<Rightarrow> 'j BlockInput option \<Rightarrow> error + 'j"
  MarshalNamedTypeInfos :: "'j list option \<Rightarrow> error + string"
  canvasToRefs :: "64 word \<Rightarrow> string \<Rightarrow> error + 'j"
  CanvasToWorkflowSchema :: "'s \<Rightarrow> 'j Canvas \<Rightarrow> error + 'a WorkflowSchema"

subsection \<open>\<^verbatim>\<open>extractInputsAndOutputsNamedInfoList\<close>\<close>

fun TransformWithErrorCheck :: "('x \<Rightarrow> error + 'y) \<Rightarrow> 'x list \<Rightarrow> error + 'y list" where
  "TransformWithErrorCheck fn [] = Inr []"
| "TransformWithErrorCheck fn (a # src) =
     (case fn a of
        Inl err \<Rightarrow> Inl err
      | Inr item \<Rightarrow> (case TransformWithErrorCheck fn src of
                       Inl err \<Rightarrow> Inl err
                     | Inr dst \<Rightarrow> Inr (item # dst)))"

fun findStartAndEnd ::
  "string \<Rightarrow> string \<Rightarrow> 'j Node list \<Rightarrow> 'j Node option \<Rightarrow> 'j Node option \<Rightarrow>
   'j Node option \<times> 'j Node option" where
  "findStartAndEnd entryID exitID [] startNode endNode = (startNode, endNode)"
| "findStartAndEnd entryID exitID (node # rest) startNode endNode =
     (if startNode \<noteq> None \<and> endNode \<noteq> None then (startNode, endNode)
      else findStartAndEnd entryID exitID rest
             (if NodeType node = entryID then Some node else startNode)
             (if NodeType node = exitID then Some node else endNode))"

text \<open>
  The two results are slices: \<open>None\<close> is the nil slice a failed transformation leaves. A
  panic (a start or end node without data) is recovered and the function returns the
  results assigned so far.
\<close>

definition extractInputsAndOutputsNamedInfoList ::
  "'j voEnv \<Rightarrow> ('s, 'j, 'a) serviceEnv \<Rightarrow> entityEnv \<Rightarrow> 'j Canvas \<Rightarrow>
   'j list option \<times> 'j list option" where
  "extractInputsAndOutputsNamedInfoList V S E c =
     (case findStartAndEnd (NodeTypeEntryID E) (NodeTypeExitID E) (CanvasNodes c) None None of
        (startNode, endNode) \<Rightarrow>
          let inputs =
                (case startNode of
                   None \<Rightarrow> Return (Some [])
                 | Some n \<Rightarrow>
                     (case Data n of
                        None \<Rightarrow> Panic NilPointerDereference
                      | Some d \<Rightarrow>
                          (case TransformWithErrorCheck
                                  (\<lambda>out. case ParseVariable V out of
                                            Inl err \<Rightarrow> Inl err
                                          | Inr v \<Rightarrow> VariableToNamedTypeInfo S v)
                                  (Outputs d) of
                             Inl err \<Rightarrow> Return None
                           | Inr infos \<Rightarrow> Return (Some infos))))
          in case inputs of
               Panic p \<Rightarrow> (Some [], Some [])
             | Fail err \<Rightarrow> (Some [], Some [])
             | Return ins \<Rightarrow>
                 (case endNode of
                    None \<Rightarrow> (ins, Some [])
                  | Some n \<Rightarrow>
                      (case Data n of
                         None \<Rightarrow> (ins, Some [])
                       | Some d \<Rightarrow>
                           (case Inputs d of
                              None \<Rightarrow> (ins, Some [])
                            | Some inp \<Rightarrow>
                                (case TransformWithErrorCheck
                                        (\<lambda>a. BlockInputToNamedTypeInfo S (ParamName a) (Input a))
                                        (InputParameters inp) of
                                   Inl err \<Rightarrow> (ins, None)
                                 | Inr infos \<Rightarrow> (ins, Some infos))))))"

subsection \<open>\<^verbatim>\<open>calculateTestRunSuccess\<close> and \<^verbatim>\<open>Save\<close>\<close>

definition calculateTestRunSuccess ::
  "('s, 'j) repository \<Rightarrow> ('s, 'j, 'a) serviceEnv \<Rightarrow> 's \<Rightarrow> 'j Canvas \<Rightarrow> 64 word \<Rightarrow>
   error + bool" where
  "calculateTestRunSuccess R S s c wid =
     (case CanvasToWorkflowSchema S s c of
        Inl err \<Rightarrow> Inr False
      | Inr sc \<Rightarrow>
          (case DraftV2 R s wid [] of
             Inl err \<Rightarrow> if err = RecordNotFound then Inr False else Inl err
           | Inr existedDraft \<Rightarrow>
               let existedDraftCanvas = snd (UnmarshalCanvas S (Canvas existedDraft))
               in case CanvasToWorkflowSchema S s existedDraftCanvas of
                    Inr existedSc \<Rightarrow>
                      if \<not> IsEqual existedSc sc then Inr False
                      else Inr (TestRunSuccess existedDraft)
                  | Inl err \<Rightarrow> Inr False))"

text \<open>
  \<^verbatim>\<open>Save\<close> in two steps: \<open>draftToSave\<close> is everything up to the last statement, giving the
  draft handed to the repository and the repository state after \<^verbatim>\<open>GenID\<close>; \<open>Save\<close> then
  returns what \<^verbatim>\<open>CreateOrUpdateDraft\<close> returns.
\<close>

definition draftToSave ::
  "'j voEnv \<Rightarrow> ('s, 'j) repository \<Rightarrow> ('s, 'j, 'a) serviceEnv \<Rightarrow> entityEnv \<Rightarrow>
   's \<Rightarrow> 64 word \<Rightarrow> string \<Rightarrow> error + DraftInfo \<times> 's" where
  "draftToSave V R S E s ident schema =
     (case UnmarshalCanvas S schema of
        (Some err, _) \<Rightarrow> Inl (SerializationFail err)
      | (None, draft) \<Rightarrow>
     (case extractInputsAndOutputsNamedInfoList V S E draft of
        (inputs, outputs) \<Rightarrow>
     (case MarshalNamedTypeInfos S inputs of
        Inl err \<Rightarrow> Inl (SerializationFail err)
      | Inr inputParams \<Rightarrow>
     (case MarshalNamedTypeInfos S outputs of
        Inl err \<Rightarrow> Inl (SerializationFail err)
      | Inr outputParams \<Rightarrow>
     (case calculateTestRunSuccess R S s draft ident of
        Inl err \<Rightarrow> Inl err
      | Inr testRunSuccess \<Rightarrow>
     (case GenID R s of
        (Inl err, _) \<Rightarrow> Inl (IDGenError err)
      | (Inr commitID, s1) \<Rightarrow>
          Inr (\<lparr>Canvas = schema, TestRunSuccess = testRunSuccess, Modified = True,
                InputParamsStr = inputParams, OutputParamsStr = outputParams,
                CommitID = FormatInt commitID\<rparr>, s1)))))))"

definition Save ::
  "'j voEnv \<Rightarrow> ('s, 'j) repository \<Rightarrow> ('s, 'j, 'a) serviceEnv \<Rightarrow> entityEnv \<Rightarrow>
   's \<Rightarrow> 64 word \<Rightarrow> string \<Rightarrow> error + 's" where
  "Save V R S E s ident schema =
     (case draftToSave V R S E s ident schema of
        Inl err \<Rightarrow> Inl err
      | Inr (draft, s1) \<Rightarrow> CreateOrUpdateDraft R s1 ident draft)"

text \<open>
  The specification's \<open>inherit_or_reset\<close>: compile the new canvas and the previously
  stored canvas; when both compile and the schemas are execution-equivalent, inherit the
  previous draft's flag, otherwise false.
\<close>

definition previousCanvas :: "('s, 'j, 'a) serviceEnv \<Rightarrow> DraftInfo \<Rightarrow> 'j Canvas" where
  "previousCanvas S prev = snd (UnmarshalCanvas S (Canvas prev))"

definition bothCompileEquivalent ::
  "('s, 'j, 'a) serviceEnv \<Rightarrow> 's \<Rightarrow> 'j Canvas \<Rightarrow> 'j Canvas \<Rightarrow> bool" where
  "bothCompileEquivalent S s new old \<longleftrightarrow>
     (\<exists>sc existedSc. CanvasToWorkflowSchema S s new = Inr sc \<and>
        CanvasToWorkflowSchema S s old = Inr existedSc \<and> IsEqual existedSc sc)"

definition inheritOrReset ::
  "('s, 'j) repository \<Rightarrow> ('s, 'j, 'a) serviceEnv \<Rightarrow> 's \<Rightarrow> 'j Canvas \<Rightarrow> 64 word \<Rightarrow> bool" where
  "inheritOrReset R S s new wid \<longleftrightarrow>
     (\<exists>prev. DraftV2 R s wid [] = Inr prev \<and>
        bothCompileEquivalent S s new (previousCanvas S prev) \<and> TestRunSuccess prev)"

lemma calculateTestRunSuccess_Inr:
  "calculateTestRunSuccess R S s c wid = Inr b \<Longrightarrow> b = inheritOrReset R S s c wid"
  unfolding calculateTestRunSuccess_def inheritOrReset_def bothCompileEquivalent_def
    previousCanvas_def Let_def
  by (auto split: sum.splits if_splits)

lemma calculateTestRunSuccess_Inl:
  "calculateTestRunSuccess R S s c wid = Inl err \<longleftrightarrow>
     (\<exists>sc. CanvasToWorkflowSchema S s c = Inr sc) \<and> DraftV2 R s wid [] = Inl err \<and>
     err \<noteq> RecordNotFound"
  unfolding calculateTestRunSuccess_def Let_def
  by (auto split: sum.splits if_splits)

lemma draftToSave_flag:
  assumes "draftToSave V R S E s ident schema = Inr (d, s1)"
  shows "UnmarshalCanvas S schema = (None, snd (UnmarshalCanvas S schema)) \<and>
         TestRunSuccess d = inheritOrReset R S s (snd (UnmarshalCanvas S schema)) ident \<and>
         Canvas d = schema \<and> Modified d \<and>
         (\<exists>err. calculateTestRunSuccess R S s (snd (UnmarshalCanvas S schema)) ident = Inr err)"
  using assms unfolding draftToSave_def
  by (auto split: prod.splits option.splits sum.splits dest: calculateTestRunSuccess_Inr)


subsection \<open>\<^verbatim>\<open>Publish\<close>\<close>

text \<open>
  Modelled from the spec: \<^verbatim>\<open>parseVersion\<close> and \<^verbatim>\<open>isIncremental\<close>, which \<^verbatim>\<open>Publish\<close> calls and
  which are defined outside the sources at hand. A version string is \<^verbatim>\<open>vA.B.C\<close> with
  non-negative integers \<open>A\<close>, \<open>B\<close>, \<open>C\<close> in decimal; the order is lexicographic on
  \<open>(A, B, C)\<close>, and a new version must be strictly greater than the latest one.
\<close>

fun splitOn :: "char \<Rightarrow> string \<Rightarrow> string list" where
  "splitOn sep [] = [[]]"
| "splitOn sep (c # cs) =
     (if c = sep then [] # splitOn sep cs
      else (case splitOn sep cs of
              part # parts \<Rightarrow> (c # part) # parts
            | [] \<Rightarrow> [[c]]))"

definition parseNatural :: "string \<Rightarrow> nat option" where
  "parseNatural text = (if text = [] then None else parseUint text 0)"

definition parseVersion :: "string \<Rightarrow> error + nat \<times> nat \<times> nat" where
  "parseVersion versionString =
     (case versionString of
        [] \<Rightarrow> Inl (External ''invalid version'')
      | c # rest \<Rightarrow>
          if c \<noteq> CHR ''v'' then Inl (External ''invalid version'')
          else (case map parseNatural (splitOn (CHR ''.'') rest) of
                  [Some major, Some minor, Some patch] \<Rightarrow> Inr (major, minor, patch)
                | _ \<Rightarrow> Inl (External ''invalid version'')))"

definition isIncremental :: "nat \<times> nat \<times> nat \<Rightarrow> nat \<times> nat \<times> nat \<Rightarrow> bool" where
  "isIncremental prev next =
     (case (prev, next) of
        ((a, b, c), (a', b', c')) \<Rightarrow>
          a < a' \<or> (a = a' \<and> (b < b' \<or> (b = b' \<and> c < c'))))"

text \<open>
  \<^verbatim>\<open>Publish\<close>: \<open>publishDraft\<close> is the part after the version check (draft lookup, test-run
  gate, reference edges, version record).
\<close>

definition publishDraft ::
  "('s, 'j) repository \<Rightarrow> ('s, 'j, 'a) serviceEnv \<Rightarrow> 's \<Rightarrow> PublishPolicy \<Rightarrow> error + 's" where
  "publishDraft R S s policy =
     (case DraftV2 R s (PolicyID policy) (PolicyCommitID policy) of
        Inl err \<Rightarrow> Inl err
      | Inr draft \<Rightarrow>
          if \<not> Force policy \<and> \<not> TestRunSuccess draft
          then Inl (TestRunRequired (sint (PolicyID policy)))
          else (case canvasToRefs S (PolicyID policy) (Canvas draft) of
                  Inl err \<Rightarrow> Inl err
                | Inr wfRefs \<Rightarrow>
                    CreateVersion R s (PolicyID policy)
                      \<lparr>Version = PolicyVersion policy,
                       VersionDescription = PolicyVersionDescription policy,
                       VersionCreatorID = PolicyCreatorID policy,
                       VersionCanvas = Canvas draft,
                       VersionInputParamsStr = InputParamsStr draft,
                       VersionOutputParamsStr = OutputParamsStr draft,
                       VersionCommitID = CommitID draft\<rparr>
                      wfRefs))"

definition Publish ::
  "('s, 'j) repository \<Rightarrow> ('s, 'j, 'a) serviceEnv \<Rightarrow> 's \<Rightarrow> PublishPolicy \<Rightarrow> error + 's" where
  "Publish R S s policy =
     (case GetMeta R s (PolicyID policy) of
        Inl err \<Rightarrow> Inl err
      | Inr meta \<Rightarrow>
          (case LatestPublishedVersion meta of
             None \<Rightarrow> publishDraft R S s policy
           | Some latest \<Rightarrow>
               (case parseVersion latest of
                  Inl err \<Rightarrow> Inl err
                | Inr latestVersion \<Rightarrow>
                    (case parseVersion (PolicyVersion policy) of
                       Inl err \<Rightarrow> Inl err
                     | Inr currentVersion \<Rightarrow>
                         if \<not> isIncremental latestVersion currentVersion
                         then Inl (VersionNotIncremental latest (PolicyVersion policy))
                         else publishDraft R S s policy))))"


subsection \<open>\<^verbatim>\<open>adaptToChatFlow\<close>\<close>

text \<open>
  \<^verbatim>\<open>vo.UserInputKey\<close> and \<^verbatim>\<open>vo.ConversationNameKey\<close> are declared outside the sources at
  hand; the default chat canvas of package vo names the two fields \<^verbatim>\<open>USER_INPUT\<close> and
  \<^verbatim>\<open>CONVERSATION_NAME\<close>.
\<close>

definition UserInputKey :: string where "UserInputKey = ''USER_INPUT''"
definition ConversationNameKey :: string where "ConversationNameKey = ''CONVERSATION_NAME''"

text \<open>The two variables the adapter appends, as the struct literals give them.\<close>

definition userInputVariable :: "'j Variable" where
  "userInputVariable = Variable UserInputKey VariableTypeString False 0 AnyNil [] False AnyNil"

definition conversationNameVariable :: "'j Variable" where
  "conversationNameVariable =
     Variable ConversationNameKey VariableTypeString False 0 AnyNil [] False (AnyString ''Default'')"

text \<open>The loop filling \<^verbatim>\<open>vMap\<close>: the names of the parsed outputs, or the first parse error.\<close>

fun outputNames :: "'j voEnv \<Rightarrow> 'j any list \<Rightarrow> (string \<times> bool) list \<Rightarrow> error + (string \<times> bool) list" where
  "outputNames V [] vMap = Inr vMap"
| "outputNames V (out # rest) vMap =
     (case ParseVariable V out of
        Inl err \<Rightarrow> Inl err
      | Inr v \<Rightarrow> outputNames V rest (AList.update (VarName v) True vMap))"

text \<open>
  \<open>adaptCanvasToChatFlow\<close> is the part of \<^verbatim>\<open>adaptToChatFlow\<close> between decoding the canvas
  and encoding it again. The start node is the first node of the entry type; it is
  changed in place, which in the model replaces that node in the list. Reading the
  outputs of a start node without data panics.
\<close>

fun replaceFirst :: "('x \<Rightarrow> bool) \<Rightarrow> 'x \<Rightarrow> 'x list \<Rightarrow> 'x list" where
  "replaceFirst P y [] = []"
| "replaceFirst P y (x # xs) = (if P x then y # xs else x # replaceFirst P y xs)"

definition setOutputs :: "'j Node \<Rightarrow> 'j Data \<Rightarrow> 'j any list \<Rightarrow> 'j Node" where
  "setOutputs n d outs =
     Node (ID n) (NodeType n) (NodeMeta n) (Some (d\<lparr>Outputs := outs\<rparr>)) (Blocks n) (NodeEdges n)
       (NodeVersion n)"

definition adaptCanvasToChatFlow :: "'j voEnv \<Rightarrow> entityEnv \<Rightarrow> 'j Canvas \<Rightarrow> 'j Canvas outcome" where
  "adaptCanvasToChatFlow V E canvas =
     (case find (\<lambda>node. NodeType node = NodeTypeEntryID E) (CanvasNodes canvas) of
        None \<Rightarrow> Fail StartNodeNotFound
      | Some startNode \<Rightarrow>
          (case Data startNode of
             None \<Rightarrow> Panic NilPointerDereference
           | Some d \<Rightarrow>
               (case outputNames V (Outputs d) [] of
                  Inl err \<Rightarrow> Fail err
                | Inr vMap \<Rightarrow>
                    let outs1 = (if map_of vMap UserInputKey = None
                                 then Outputs d @ [VariablePtr userInputVariable]
                                 else Outputs d);
                        outs2 = (if map_of vMap ConversationNameKey = None
                                 then outs1 @ [VariablePtr conversationNameVariable]
                                 else outs1)
                    in Return (canvas\<lparr>CanvasNodes :=
                         replaceFirst (\<lambda>node. NodeType node = NodeTypeEntryID E)
                           (setOutputs startNode d outs2) (CanvasNodes canvas)\<rparr>))))"

definition adaptToChatFlow ::
  "'j voEnv \<Rightarrow> ('s, 'j) repository \<Rightarrow> ('s, 'j, 'a) serviceEnv \<Rightarrow> entityEnv \<Rightarrow>
   's \<Rightarrow> 64 word \<Rightarrow> 's outcome" where
  "adaptToChatFlow V R S E s wID =
     (case GetEntity R s \<lparr>GetID = wID, QType = FromDraft, GetVersion = []\<rparr> of
        Inl err \<Rightarrow> Fail err
      | Inr wfEntity \<Rightarrow>
     (case WorkflowCanvas wfEntity of
        None \<Rightarrow> Panic NilPointerDereference
      | Some text \<Rightarrow>
     (case UnmarshalCanvas S text of
        (Some err, _) \<Rightarrow> Fail err
      | (None, canvas) \<Rightarrow>
     (case adaptCanvasToChatFlow V E canvas of
        Panic p \<Rightarrow> Panic p
      | Fail err \<Rightarrow> Fail err
      | Return canvas' \<Rightarrow>
     (case MarshalCanvas S canvas' of
        Inl err \<Rightarrow> Fail err
      | Inr canvasStr \<Rightarrow>
     (case Save V R S E s wID canvasStr of
        Inl err \<Rightarrow> Fail err
      | Inr s' \<Rightarrow> Return s'))))))"

text \<open>
  C2. Whenever \<^verbatim>\<open>Save\<close> stores a draft, the stored \<open>TestRunSuccess\<close> is computed by
  \<open>inherit_or_reset\<close>: it equals the previous draft's flag when the new canvas compiles, a
  previous draft exists, its canvas compiles and the two schemas are execution-equivalent;
  it is false when the new canvas fails to compile, when there is no previous draft, when
  the previous canvas fails to compile, and when the schemas differ. These cases are all
  there are. Hence for every save with a previous draft: the previous canvas did not
  compile, or the compiled schemas differ, or the new flag equals the previous flag.
\<close>

theorem Save_test_run_success:
  assumes "Save V R S E s ident schema = Inr s'"
  shows "\<exists>d s1 new.
     draftToSave V R S E s ident schema = Inr (d, s1) \<and>
     CreateOrUpdateDraft R s1 ident d = Inr s' \<and>
     UnmarshalCanvas S schema = (None, new) \<and>
     (\<forall>prev sc existedSc.
        CanvasToWorkflowSchema S s new = Inr sc \<and> DraftV2 R s ident [] = Inr prev \<and>
        CanvasToWorkflowSchema S s (previousCanvas S prev) = Inr existedSc \<and>
        IsEqual existedSc sc \<longrightarrow> TestRunSuccess d = TestRunSuccess prev) \<and>
     ((\<exists>err. CanvasToWorkflowSchema S s new = Inl err) \<longrightarrow> \<not> TestRunSuccess d) \<and>
     (DraftV2 R s ident [] = Inl RecordNotFound \<longrightarrow> \<not> TestRunSuccess d) \<and>
     (\<forall>prev err. DraftV2 R s ident [] = Inr prev \<and>
        CanvasToWorkflowSchema S s (previousCanvas S prev) = Inl err \<longrightarrow> \<not> TestRunSuccess d) \<and>
     (\<forall>prev sc existedSc.
        CanvasToWorkflowSchema S s new = Inr sc \<and> DraftV2 R s ident [] = Inr prev \<and>
        CanvasToWorkflowSchema S s (previousCanvas S prev) = Inr existedSc \<and>
        \<not> IsEqual existedSc sc \<longrightarrow> \<not> TestRunSuccess d) \<and>
     ((\<exists>err. CanvasToWorkflowSchema S s new = Inl err) \<or>
      DraftV2 R s ident [] = Inl RecordNotFound \<or> (\<exists>prev. DraftV2 R s ident [] = Inr prev)) \<and>
     (\<forall>prev. DraftV2 R s ident [] = Inr prev \<longrightarrow>
        (\<exists>err. CanvasToWorkflowSchema S s (previousCanvas S prev) = Inl err) \<or>
        \<not> bothCompileEquivalent S s new (previousCanvas S prev) \<or>
        TestRunSuccess d = TestRunSuccess prev)"
proof -
  from assms obtain d s1 where dts: "draftToSave V R S E s ident schema = Inr (d, s1)"
    and cud: "CreateOrUpdateDraft R s1 ident d = Inr s'"
    by (auto simp: Save_def split: sum.splits)
  define new where "new = snd (UnmarshalCanvas S schema)"
  from draftToSave_flag [OF dts]
  have um: "UnmarshalCanvas S schema = (None, new)"
    and flag: "TestRunSuccess d = inheritOrReset R S s new ident"
    and ret: "\<exists>b. calculateTestRunSuccess R S s new ident = Inr b"
    by (simp_all add: new_def)
  have cases: "(\<exists>err. CanvasToWorkflowSchema S s new = Inl err) \<or>
      DraftV2 R s ident [] = Inl RecordNotFound \<or> (\<exists>prev. DraftV2 R s ident [] = Inr prev)"
  proof (cases "DraftV2 R s ident []")
    case (Inr prev)
    then show ?thesis by blast
  next
    case (Inl err)
    show ?thesis
    proof (cases "CanvasToWorkflowSchema S s new")
      case inl: (Inl e)
      then show ?thesis by blast
    next
      case (Inr sc)
      have "err = RecordNotFound"
      proof (rule ccontr)
        assume "err \<noteq> RecordNotFound"
        with Inl Inr have "calculateTestRunSuccess R S s new ident = Inl err"
          by (simp add: calculateTestRunSuccess_Inl)
        with ret show False by auto
      qed
      with Inl show ?thesis by blast
    qed
  qed
  show ?thesis
    apply (rule exI [of _ d], rule exI [of _ s1], rule exI [of _ new])
    using dts cud um cases
    unfolding flag inheritOrReset_def bothCompileEquivalent_def
    by auto
qed

subsection \<open>An in-memory repository and a service environment for the examples\<close>

record memState =
  drafts :: "(64 word \<times> DraftInfo) list"
  metas :: "(64 word \<times> Meta) list"
  versions :: "(64 word \<times> VersionInfo) list"
  nextID :: "64 word"

definition memRepo :: "(memState, unit) repository" where
  "memRepo =
     \<lparr>GetMeta = (\<lambda>s i. case map_of (metas s) i of
                            None \<Rightarrow> Inl RecordNotFound | Some m \<Rightarrow> Inr m),
      DraftV2 = (\<lambda>s i commit. case map_of (drafts s) i of
                                 None \<Rightarrow> Inl RecordNotFound | Some d \<Rightarrow> Inr d),
      GenID = (\<lambda>s. (Inr (nextID s), s\<lparr>nextID := nextID s + 1\<rparr>)),
      CreateOrUpdateDraft = (\<lambda>s i d. Inr (s\<lparr>drafts := AList.update i d (drafts s)\<rparr>)),
      CreateVersion = (\<lambda>s i v refs.
         Inr (s\<lparr>versions := (i, v) # versions s,
                metas := AList.update i \<lparr>LatestPublishedVersion = Some (Version v)\<rparr> (metas s)\<rparr>)),
      GetEntity = (\<lambda>s p. case map_of (drafts s) (GetID p) of
                            None \<Rightarrow> Inl RecordNotFound
                          | Some d \<Rightarrow>
                              Inr \<lparr>WorkflowEntityID = GetID p, WorkflowCommitID = CommitID d,
                                   WorkflowSpaceID = 1, WorkflowAppID = None,
                                   WorkflowCanvas = Some (Canvas d),
                                   WorkflowVersionMeta = None\<rparr>)\<rparr>"

text \<open>
  The example canvases: entry and exit node joined by an edge, with an entry node
  without outputs (\<open>A\<close>), with a further node \<open>extra\<close> (\<open>B\<close>), and with the two chat
  fields on the entry node (\<open>A-chat\<close>). The example compiler makes one node schema per
  canvas node and one connection per edge.
\<close>

definition plainNode :: "string \<Rightarrow> string \<Rightarrow> unit any list \<Rightarrow> unit Node" where
  "plainNode ident type outs =
     Node ident type AnyNil
       (Some \<lparr>Meta = Some (emptyMeta ident), Outputs = outs, Inputs = None, Size = AnyNil\<rparr>)
       [] [] []"

definition entryToExit :: Edge where
  "entryToExit = \<lparr>SourceNodeID = ''100001'', TargetNodeID = ''900001'',
                  SourcePortID = [], TargetPortID = []\<rparr>"

definition canvasA :: "unit Canvas" where
  "canvasA = \<lparr>CanvasNodes = [plainNode ''100001'' ''1'' [], plainNode ''900001'' ''2'' []],
              CanvasEdges = [entryToExit], Versions = AnyNil\<rparr>"

definition canvasB :: "unit Canvas" where
  "canvasB = \<lparr>CanvasNodes = [plainNode ''100001'' ''1'' [], plainNode ''extra'' ''3'' [],
                             plainNode ''900001'' ''2'' []],
              CanvasEdges = [entryToExit], Versions = AnyNil\<rparr>"

definition canvasAChat :: "unit Canvas" where
  "canvasAChat =
     \<lparr>CanvasNodes =
        [plainNode ''100001'' ''1''
           [VariablePtr (Variable ''USER_INPUT'' ''string'' False 0 AnyNil [] False AnyNil),
            VariablePtr (Variable ''CONVERSATION_NAME'' ''string'' False 0 AnyNil [] False
                           (AnyString ''Default''))],
         plainNode ''900001'' ''2'' []],
      CanvasEdges = [entryToExit], Versions = AnyNil\<rparr>"

definition exampleCompile :: "unit Canvas \<Rightarrow> unit WorkflowSchema" where
  "exampleCompile c =
     WorkflowSchema
       (map (\<lambda>n. NodeSchema (ID n) (NodeType n) (ID n) () () NilSlice () NilSlice None None None
                     None)
            (CanvasNodes c))
       (map EdgeToConnection (CanvasEdges c)) [] [] [] False False 0 True"

definition exampleService :: "(memState, unit, unit) serviceEnv" where
  "exampleService =
     \<lparr>UnmarshalCanvas = (\<lambda>text. if text = ''A'' then (None, canvasA)
                                else if text = ''B'' then (None, canvasB)
                                else if text = ''A-chat'' then (None, canvasAChat)
                                else (Some (External ''invalid JSON''),
                                      \<lparr>CanvasNodes = [], CanvasEdges = [], Versions = AnyNil\<rparr>)),
      MarshalCanvas = (\<lambda>c. if c = canvasA then Inr ''A''
                            else if c = canvasB then Inr ''B''
                            else if c = canvasAChat then Inr ''A-chat''
                            else Inl (External ''unknown canvas'')),
      VariableToNamedTypeInfo = (\<lambda>v. Inr ()),
      BlockInputToNamedTypeInfo = (\<lambda>name input. Inr ()),
      MarshalNamedTypeInfos = (\<lambda>infos. Inr ''[]''),
      canvasToRefs = (\<lambda>i text. Inr ()),
      CanvasToWorkflowSchema = (\<lambda>s c. Inr (exampleCompile c))\<rparr>"

definition testedDraft :: "string \<Rightarrow> bool \<Rightarrow> string \<Rightarrow> DraftInfo" where
  "testedDraft text tested commit =
     \<lparr>Canvas = text, TestRunSuccess = tested, Modified = True,
      InputParamsStr = ''[]'', OutputParamsStr = ''[]'', CommitID = commit\<rparr>"

definition stateWithDraft :: "DraftInfo \<Rightarrow> 64 word \<Rightarrow> memState" where
  "stateWithDraft d next =
     \<lparr>drafts = [(7, d)], metas = [(7, \<lparr>LatestPublishedVersion = None\<rparr>)], versions = [],
      nextID = next\<rparr>"

lemma FormatInt_5: "FormatInt 5 = ''5''"
  by code_simp

lemma IsEqual_refl: "IsEqual w w"
proof -
  have "rel_option agreeOn x x" for x :: "'a NodeSchema option"
    by (cases x) (simp_all add: agreeOn_def)
  then show ?thesis by (simp add: IsEqual_iff)
qed

lemma Save_example:
  "Save exampleVo memRepo exampleService exampleEntity
     (stateWithDraft (testedDraft ''A'' True ''4'') 5) 7 ''A'' =
   Inr (stateWithDraft (testedDraft ''A'' True ''5'') 6)"
  by (simp add: Save_def draftToSave_def calculateTestRunSuccess_def IsEqual_refl
      extractInputsAndOutputsNamedInfoList_def exampleService_def memRepo_def
      stateWithDraft_def testedDraft_def canvasA_def plainNode_def exampleEntity_def
      exampleVo_def FormatInt_5 Let_def)


theorem Save_test_run_success_witness:
  "Save exampleVo memRepo exampleService exampleEntity
     (stateWithDraft (testedDraft ''A'' True ''4'') 5) 7 ''A'' =
     Inr (stateWithDraft (testedDraft ''A'' True ''5'') 6) \<and>
   DraftV2 memRepo (stateWithDraft (testedDraft ''A'' True ''4'') 5) 7 [] =
     Inr (testedDraft ''A'' True ''4'') \<and>
   (\<exists>d s1. draftToSave exampleVo memRepo exampleService exampleEntity
              (stateWithDraft (testedDraft ''A'' True ''4'') 5) 7 ''A'' = Inr (d, s1) \<and>
            TestRunSuccess d = TestRunSuccess (testedDraft ''A'' True ''4'') \<and>
            TestRunSuccess d)"
proof -
  let ?s = "stateWithDraft (testedDraft ''A'' True ''4'') 5"
  let ?prev = "testedDraft ''A'' True ''4''"
  note save = Save_example
  from Save_test_run_success [OF save] obtain d s1 new
    where dts: "draftToSave exampleVo memRepo exampleService exampleEntity ?s 7 ''A'' = Inr (d, s1)"
      and um: "UnmarshalCanvas exampleService ''A'' = (None, new)"
      and inherit: "\<forall>prev sc existedSc.
        CanvasToWorkflowSchema exampleService ?s new = Inr sc \<and>
        DraftV2 memRepo ?s 7 [] = Inr prev \<and>
        CanvasToWorkflowSchema exampleService ?s (previousCanvas exampleService prev) = Inr existedSc \<and>
        IsEqual existedSc sc \<longrightarrow> TestRunSuccess d = TestRunSuccess prev"
    by blast
  have new: "new = canvasA" using um by (simp add: exampleService_def)
  have prev: "DraftV2 memRepo ?s 7 [] = Inr ?prev"
    by (simp add: memRepo_def stateWithDraft_def)
  have c1: "CanvasToWorkflowSchema exampleService ?s new = Inr (exampleCompile canvasA)"
    by (simp add: exampleService_def new)
  have c2: "CanvasToWorkflowSchema exampleService ?s (previousCanvas exampleService ?prev) =
              Inr (exampleCompile canvasA)"
    by (simp add: exampleService_def previousCanvas_def testedDraft_def)
  from inherit c1 prev c2 IsEqual_refl [of "exampleCompile canvasA"]
  have "TestRunSuccess d = TestRunSuccess ?prev" by blast
  moreover have "TestRunSuccess ?prev" by (simp add: testedDraft_def)
  ultimately show ?thesis using save prev dts by blast
qed


subsection \<open>The version check of \<^verbatim>\<open>Publish\<close>\<close>

lemma isIncremental_irrefl: "\<not> isIncremental v v"
  by (cases v) (simp add: isIncremental_def)

lemma isIncremental_asym: "isIncremental u v \<Longrightarrow> \<not> isIncremental v u"
  by (cases u; cases v) (auto simp: isIncremental_def)

lemma isIncremental_trans: "isIncremental u v \<Longrightarrow> isIncremental v w \<Longrightarrow> isIncremental u w"
  by (cases u; cases v; cases w) (auto simp: isIncremental_def)

lemma isIncremental_total: "isIncremental u v \<or> u = v \<or> isIncremental v u"
  by (cases u; cases v) (auto simp: isIncremental_def)

lemma parseVersion_examples:
  "parseVersion ''v0.0.1'' = Inr (0, 0, 1)" "parseVersion ''v0.0.2'' = Inr (0, 0, 2)"
  "parseVersion ''v1.1.0'' = Inr (1, 1, 0)" "parseVersion ''v1.2.0'' = Inr (1, 2, 0)"
  by code_simp+

text \<open>
  C3 (as amended). When the workflow has a latest published version and both version
  strings are well-formed, \<^verbatim>\<open>Publish\<close> fails with the version error exactly when the new
  version is not strictly greater than the latest one in the lexicographic order on
  \<open>(A, B, C)\<close> (a strict total order, so the same version again and a lower parallel bump
  are rejected); when the new version is greater, and when nothing has been published
  yet, \<^verbatim>\<open>Publish\<close> goes on to the draft lookup and the test-run gate, which reject a draft
  that has not passed its test run unless the publication is forced.
\<close>

theorem Publish_version_monotonicity:
  assumes "GetMeta R s (PolicyID policy) = Inr meta"
  shows "(LatestPublishedVersion meta = Some latest \<and> parseVersion latest = Inr lv \<and>
          parseVersion (PolicyVersion policy) = Inr cv \<longrightarrow>
            (\<not> isIncremental lv cv \<longrightarrow>
               Publish R S s policy = Inl (VersionNotIncremental latest (PolicyVersion policy))) \<and>
            (isIncremental lv cv \<longrightarrow> Publish R S s policy = publishDraft R S s policy)) \<and>
         (LatestPublishedVersion meta = None \<longrightarrow>
            Publish R S s policy = publishDraft R S s policy) \<and>
         (DraftV2 R s (PolicyID policy) (PolicyCommitID policy) = Inr draft \<and>
          \<not> Force policy \<and> \<not> TestRunSuccess draft \<longrightarrow>
            publishDraft R S s policy = Inl (TestRunRequired (sint (PolicyID policy)))) \<and>
         (isIncremental (a, b, c) (a', b', c') \<longleftrightarrow>
            a < a' \<or> (a = a' \<and> b < b') \<or> (a = a' \<and> b = b' \<and> c < c')) \<and>
         \<not> isIncremental lv lv \<and>
         (isIncremental lv cv \<longrightarrow> \<not> isIncremental cv lv) \<and>
         (isIncremental lv cv \<or> lv = cv \<or> isIncremental cv lv)"
  using assms isIncremental_irrefl [of lv] isIncremental_asym [of lv cv]
    isIncremental_total [of lv cv]
  by (auto simp: Publish_def publishDraft_def isIncremental_def)

definition publishedState :: "bool \<Rightarrow> memState" where
  "publishedState tested =
     \<lparr>drafts = [(7, testedDraft ''A'' tested ''4'')],
      metas = [(7, \<lparr>LatestPublishedVersion = Some ''v0.0.1''\<rparr>)], versions = [], nextID = 5\<rparr>"

definition examplePolicy :: "string \<Rightarrow> bool \<Rightarrow> PublishPolicy" where
  "examplePolicy version force =
     \<lparr>PolicyID = 7, PolicyVersion = version, PolicyVersionDescription = [],
      PolicyCreatorID = 1, PolicyCommitID = [], Force = force\<rparr>"

theorem Publish_version_monotonicity_witness:
  "GetMeta memRepo (publishedState False) (PolicyID (examplePolicy ''v0.0.1'' True)) =
     Inr \<lparr>LatestPublishedVersion = Some ''v0.0.1''\<rparr> \<and>
   parseVersion ''v0.0.1'' = Inr (0, 0, 1) \<and>
   \<not> isIncremental (0, 0, 1) (0, 0, 1) \<and>
   Publish memRepo exampleService (publishedState False) (examplePolicy ''v0.0.1'' True) =
     Inl (VersionNotIncremental ''v0.0.1'' ''v0.0.1'') \<and>
   parseVersion ''v0.0.2'' = Inr (0, 0, 2) \<and>
   isIncremental (0, 0, 1) (0, 0, 2) \<and>
   Publish memRepo exampleService (publishedState False) (examplePolicy ''v0.0.2'' True) =
     publishDraft memRepo exampleService (publishedState False) (examplePolicy ''v0.0.2'' True)"
proof -
  let ?m = "\<lparr>LatestPublishedVersion = Some ''v0.0.1''\<rparr>"
  have g: "GetMeta memRepo (publishedState False) (PolicyID (examplePolicy v f)) = Inr ?m" for v f
    by (simp add: memRepo_def publishedState_def examplePolicy_def)
  have n: "\<not> isIncremental (0, 0, 1::nat) (0, 0, 1::nat)" by (simp add: isIncremental_def)
  have i: "isIncremental (0, 0, 1::nat) (0, 0, 2::nat)" by (simp add: isIncremental_def)
  have pv1: "parseVersion (PolicyVersion (examplePolicy ''v0.0.1'' True)) = Inr (0, 0, 1)"
    by (simp add: examplePolicy_def parseVersion_examples)
  have pv2: "parseVersion (PolicyVersion (examplePolicy ''v0.0.2'' True)) = Inr (0, 0, 2)"
    by (simp add: examplePolicy_def parseVersion_examples)
  have l: "LatestPublishedVersion ?m = Some ''v0.0.1''" by simp
  from Publish_version_monotonicity [OF g [of "''v0.0.1''" True],
         where latest = "''v0.0.1''" and lv = "(0, 0, 1)" and cv = "(0, 0, 1)"
           and S = exampleService]
    l parseVersion_examples(1) pv1 n
  have again: "Publish memRepo exampleService (publishedState False) (examplePolicy ''v0.0.1'' True) =
                 Inl (VersionNotIncremental ''v0.0.1'' (PolicyVersion (examplePolicy ''v0.0.1'' True)))"
    by blast
  from Publish_version_monotonicity [OF g [of "''v0.0.2''" True],
         where latest = "''v0.0.1''" and lv = "(0, 0, 1)" and cv = "(0, 0, 2)"
           and S = exampleService]
    l parseVersion_examples(1) pv2 i
  have later: "Publish memRepo exampleService (publishedState False) (examplePolicy ''v0.0.2'' True) =
                publishDraft memRepo exampleService (publishedState False) (examplePolicy ''v0.0.2'' True)"
    by blast
  from again have "Publish memRepo exampleService (publishedState False) (examplePolicy ''v0.0.1'' True) =
                 Inl (VersionNotIncremental ''v0.0.1'' ''v0.0.1'')"
    by (simp add: examplePolicy_def)
  with later g n i parseVersion_examples show ?thesis by simp
qed

text \<open>
  The claim as stated fails: with \<^verbatim>\<open>v0.0.1\<close> published, publishing the strictly greater
  \<^verbatim>\<open>v0.0.2\<close> without force while the draft has not passed its test run returns an error.
\<close>

theorem Publish_error_iff_counterexample:
  "GetMeta memRepo (publishedState False) (PolicyID (examplePolicy ''v0.0.2'' False)) =
     Inr \<lparr>LatestPublishedVersion = Some ''v0.0.1''\<rparr> \<and>
   parseVersion ''v0.0.1'' = Inr (0, 0, 1) \<and>
   parseVersion ''v0.0.2'' = Inr (0, 0, 2) \<and>
   isIncremental (0, 0, 1) (0, 0, 2) \<and>
   Publish memRepo exampleService (publishedState False) (examplePolicy ''v0.0.2'' False) =
     Inl (TestRunRequired 7)"
  by (simp add: Publish_def publishDraft_def memRepo_def publishedState_def examplePolicy_def
      parseVersion_examples isIncremental_def testedDraft_def)


subsection \<open>The chat-flow adapter\<close>

lemma outputNames_Inr:
  "outputNames V outs vMap = Inr m \<Longrightarrow>
   \<exists>vars. TransformWithErrorCheck (ParseVariable V) outs = Inr vars \<and>
     (\<forall>k. map_of m k = None \<longleftrightarrow> map_of vMap k = None \<and> k \<notin> set (map VarName vars))"
proof (induction outs arbitrary: vMap)
  case Nil
  then show ?case by simp
next
  case (Cons out rest)
  from Cons.prems obtain v where v: "ParseVariable V out = Inr v"
    and r: "outputNames V rest (AList.update (VarName v) True vMap) = Inr m"
    by (auto split: sum.splits)
  from Cons.IH [OF r] obtain vars
    where t: "TransformWithErrorCheck (ParseVariable V) rest = Inr vars"
      and k: "\<forall>k. map_of m k = None \<longleftrightarrow>
                map_of (AList.update (VarName v) True vMap) k = None \<and> k \<notin> set (map VarName vars)"
    by blast
  have "TransformWithErrorCheck (ParseVariable V) (out # rest) = Inr (v # vars)"
    using v t by simp
  moreover have "\<forall>k. map_of m k = None \<longleftrightarrow> map_of vMap k = None \<and> k \<notin> set (map VarName (v # vars))"
    using k by (auto simp: update_conv')
  ultimately show ?case by blast
qed

lemma find_replaceFirst:
  "find P xs = Some x \<Longrightarrow>
   \<exists>pre post. xs = pre @ x # post \<and> P x \<and> (\<forall>y \<in> set pre. \<not> P y) \<and>
     replaceFirst P y xs = pre @ y # post"
proof (induction xs)
  case Nil
  then show ?case by simp
next
  case (Cons a xs)
  show ?case
  proof (cases "P a")
    case True
    with Cons.prems have "a = x" by simp
    with True have "a # xs = [] @ x # xs \<and> P x \<and> (\<forall>y \<in> set []. \<not> P y) \<and>
        replaceFirst P y (a # xs) = [] @ y # xs" by simp
    then show ?thesis by blast
  next
    case False
    with Cons.prems have "find P xs = Some x" by simp
    from Cons.IH [OF this] obtain pre post
      where "xs = pre @ x # post" "P x" "\<forall>y \<in> set pre. \<not> P y"
        "replaceFirst P y xs = pre @ y # post" by blast
    with False have "a # xs = (a # pre) @ x # post \<and> P x \<and> (\<forall>y \<in> set (a # pre). \<not> P y) \<and>
        replaceFirst P y (a # xs) = (a # pre) @ y # post" by simp
    then show ?thesis by blast
  qed
qed

text \<open>The fields the adapter appends, given the names of the fields already present.\<close>

definition missingChatFlowFields :: "string list \<Rightarrow> 'j any list" where
  "missingChatFlowFields names =
     (if UserInputKey \<in> set names then [] else [VariablePtr userInputVariable]) @
     (if ConversationNameKey \<in> set names then [] else [VariablePtr conversationNameVariable])"

lemma adaptCanvasToChatFlow_Return:
  assumes "adaptCanvasToChatFlow V E canvas = Return canvas'"
  shows "\<exists>pre startNode post d vars.
     CanvasNodes canvas = pre @ startNode # post \<and>
     (\<forall>n \<in> set pre. NodeType n \<noteq> NodeTypeEntryID E) \<and>
     NodeType startNode = NodeTypeEntryID E \<and> Data startNode = Some d \<and>
     TransformWithErrorCheck (ParseVariable V) (Outputs d) = Inr vars \<and>
     canvas' = canvas\<lparr>CanvasNodes :=
        pre @ setOutputs startNode d (Outputs d @ missingChatFlowFields (map VarName vars)) # post\<rparr>"
proof -
  let ?P = "\<lambda>node. NodeType node = NodeTypeEntryID E"
  from assms obtain startNode d vMap
    where f: "find ?P (CanvasNodes canvas) = Some startNode"
      and d: "Data startNode = Some d"
      and n: "outputNames V (Outputs d) [] = Inr vMap"
    by (auto simp: adaptCanvasToChatFlow_def split: option.splits sum.splits)
  from outputNames_Inr [OF n] obtain vars
    where t: "TransformWithErrorCheck (ParseVariable V) (Outputs d) = Inr vars"
      and k: "\<forall>k. map_of vMap k = None \<longleftrightarrow> k \<notin> set (map VarName vars)"
    by auto
  define outs where "outs = Outputs d @ missingChatFlowFields (map VarName vars)"
  from find_replaceFirst [OF f, of "setOutputs startNode d outs"] obtain pre post
    where xs: "CanvasNodes canvas = pre @ startNode # post"
      and p: "?P startNode" "\<forall>y \<in> set pre. \<not> ?P y"
      and r: "replaceFirst ?P (setOutputs startNode d outs) (CanvasNodes canvas) =
                pre @ setOutputs startNode d outs # post"
    by blast
  have "canvas' = canvas\<lparr>CanvasNodes := pre @ setOutputs startNode d outs # post\<rparr>"
    using assms f d n k r [unfolded outs_def]
    by (auto simp: adaptCanvasToChatFlow_def missingChatFlowFields_def outs_def Let_def)
  with xs p d t show ?thesis unfolding outs_def by blast
qed

text \<open>
  C10 (as amended). When the adapter succeeds, it has read the draft canvas of the
  workflow, taken the first node of the entry type as the entry node and parsed its
  outputs; the new outputs are the old ones, unchanged, followed by a field named
  \<^verbatim>\<open>USER_INPUT\<close> of type string when no output has that name, and by a field named
  \<^verbatim>\<open>CONVERSATION_NAME\<close> of type string, not required and with the fixed default value
  \<^verbatim>\<open>Default\<close>, when no output has that name; nothing else on the canvas changes, and the
  canvas is stored again through \<^verbatim>\<open>Save\<close>.
\<close>

theorem adaptToChatFlow_entry_fields:
  assumes "adaptToChatFlow V R S E s wID = Return s'"
  shows "\<exists>wfEntity canvasText canvas pre startNode post d vars canvasStr.
     GetEntity R s \<lparr>GetID = wID, QType = FromDraft, GetVersion = []\<rparr> = Inr wfEntity \<and>
     WorkflowCanvas wfEntity = Some canvasText \<and> UnmarshalCanvas S canvasText = (None, canvas) \<and>
     CanvasNodes canvas = pre @ startNode # post \<and>
     (\<forall>n \<in> set pre. NodeType n \<noteq> NodeTypeEntryID E) \<and>
     NodeType startNode = NodeTypeEntryID E \<and> Data startNode = Some d \<and>
     TransformWithErrorCheck (ParseVariable V) (Outputs d) = Inr vars \<and>
     MarshalCanvas S (canvas\<lparr>CanvasNodes :=
        pre @ setOutputs startNode d (Outputs d @ missingChatFlowFields (map VarName vars)) # post\<rparr>) =
       Inr canvasStr \<and>
     Save V R S E s wID canvasStr = Inr s' \<and>
     missingChatFlowFields (map VarName vars) =
       (if ''USER_INPUT'' \<in> VarName ` set vars then [] else [VariablePtr userInputVariable]) @
       (if ''CONVERSATION_NAME'' \<in> VarName ` set vars then []
        else [VariablePtr (Variable ''CONVERSATION_NAME'' ''string'' False 0 AnyNil [] False
                             (AnyString ''Default''))]) \<and>
     VarName (userInputVariable :: 'j Variable) = ''USER_INPUT'' \<and>
     VarType (userInputVariable :: 'j Variable) = ''string''"
proof -
  from assms obtain wfEntity canvasText canvas canvas' canvasStr
    where g: "GetEntity R s \<lparr>GetID = wID, QType = FromDraft, GetVersion = []\<rparr> = Inr wfEntity"
      and w: "WorkflowCanvas wfEntity = Some canvasText"
      and u: "UnmarshalCanvas S canvasText = (None, canvas)"
      and a: "adaptCanvasToChatFlow V E canvas = Return canvas'"
      and m: "MarshalCanvas S canvas' = Inr canvasStr"
      and sv: "Save V R S E s wID canvasStr = Inr s'"
    by (auto simp: adaptToChatFlow_def split: sum.splits option.splits prod.splits outcome.splits)
  from adaptCanvasToChatFlow_Return [OF a] obtain pre startNode post d vars
    where c: "CanvasNodes canvas = pre @ startNode # post"
      "\<forall>n \<in> set pre. NodeType n \<noteq> NodeTypeEntryID E"
      "NodeType startNode = NodeTypeEntryID E" "Data startNode = Some d"
      "TransformWithErrorCheck (ParseVariable V) (Outputs d) = Inr vars"
      and c': "canvas' = canvas\<lparr>CanvasNodes :=
        pre @ setOutputs startNode d (Outputs d @ missingChatFlowFields (map VarName vars)) # post\<rparr>"
    by blast
  have f: "missingChatFlowFields (map VarName vars) =
       (if ''USER_INPUT'' \<in> VarName ` set vars then [] else [VariablePtr userInputVariable]) @
       (if ''CONVERSATION_NAME'' \<in> VarName ` set vars then []
        else [VariablePtr (Variable ''CONVERSATION_NAME'' ''string'' False 0 AnyNil [] False
                             (AnyString ''Default''))])"
    by (simp add: missingChatFlowFields_def UserInputKey_def ConversationNameKey_def
        conversationNameVariable_def VariableTypeString_def)
  have n: "VarName (userInputVariable :: 'j Variable) = ''USER_INPUT'' \<and>
           VarType (userInputVariable :: 'j Variable) = ''string''"
    by (simp add: userInputVariable_def UserInputKey_def VariableTypeString_def)
  from g w u c m [unfolded c'] sv f n show ?thesis by blast
qed


lemma adaptCanvasToChatFlow_example:
  "adaptCanvasToChatFlow exampleVo exampleEntity canvasA = Return canvasAChat"
  by (simp add: adaptCanvasToChatFlow_def exampleVo_def exampleEntity_def canvasA_def
      canvasAChat_def plainNode_def setOutputs_def userInputVariable_def
      conversationNameVariable_def UserInputKey_def ConversationNameKey_def
      VariableTypeString_def Let_def)

lemma adaptToChatFlow_example:
  "adaptToChatFlow exampleVo memRepo exampleService exampleEntity
     (stateWithDraft (testedDraft ''A'' True ''4'') 5) 7 =
   Return (stateWithDraft (testedDraft ''A-chat'' True ''5'') 6)"
proof -
  have m: "MarshalCanvas exampleService canvasAChat = Inr ''A-chat''"
    by (simp add: exampleService_def canvasAChat_def canvasA_def canvasB_def plainNode_def)
  have sv: "Save exampleVo memRepo exampleService exampleEntity
              (stateWithDraft (testedDraft ''A'' True ''4'') 5) 7 ''A-chat'' =
            Inr (stateWithDraft (testedDraft ''A-chat'' True ''5'') 6)"
    by (simp add: Save_def draftToSave_def calculateTestRunSuccess_def IsEqual_refl
        extractInputsAndOutputsNamedInfoList_def exampleService_def memRepo_def
        stateWithDraft_def testedDraft_def canvasAChat_def canvasA_def plainNode_def
        exampleCompile_def previousCanvas_def exampleEntity_def exampleVo_def FormatInt_5 Let_def)
  have g: "GetEntity memRepo (stateWithDraft (testedDraft ''A'' True ''4'') 5)
             \<lparr>GetID = 7, QType = FromDraft, GetVersion = []\<rparr> =
           Inr \<lparr>WorkflowEntityID = 7, WorkflowCommitID = ''4'', WorkflowSpaceID = 1,
                WorkflowAppID = None, WorkflowCanvas = Some ''A'', WorkflowVersionMeta = None\<rparr>"
    by (simp add: memRepo_def stateWithDraft_def testedDraft_def)
  have u: "UnmarshalCanvas exampleService ''A'' = (None, canvasA)"
    by (simp add: exampleService_def)
  show ?thesis
    by (simp add: adaptToChatFlow_def g u adaptCanvasToChatFlow_example m sv)
qed

theorem adaptToChatFlow_entry_fields_witness:
  "adaptToChatFlow exampleVo memRepo exampleService exampleEntity
     (stateWithDraft (testedDraft ''A'' True ''4'') 5) 7 =
     Return (stateWithDraft (testedDraft ''A-chat'' True ''5'') 6) \<and>
   (\<exists>canvasStr. Save exampleVo memRepo exampleService exampleEntity
      (stateWithDraft (testedDraft ''A'' True ''4'') 5) 7 canvasStr =
      Inr (stateWithDraft (testedDraft ''A-chat'' True ''5'') 6))"
proof -
  from adaptToChatFlow_entry_fields [OF adaptToChatFlow_example]
  have "\<exists>canvasStr. Save exampleVo memRepo exampleService exampleEntity
      (stateWithDraft (testedDraft ''A'' True ''4'') 5) 7 canvasStr =
      Inr (stateWithDraft (testedDraft ''A-chat'' True ''5'') 6)"
    by blast
  with adaptToChatFlow_example show ?thesis by blast
qed

text \<open>
  The claim as stated fails on the canvas \<open>A\<close>, whose entry node has no outputs: the
  \<^verbatim>\<open>USER_INPUT\<close> field the adapter appends is not marked required, and the default value of
  \<^verbatim>\<open>CONVERSATION_NAME\<close> is the fixed text \<^verbatim>\<open>Default\<close> (the adapter takes no value from its
  caller).
\<close>

theorem adaptToChatFlow_required_counterexample:
  "adaptCanvasToChatFlow exampleVo exampleEntity canvasA =
     Return \<lparr>CanvasNodes =
        [plainNode ''100001'' ''1''
           [VariablePtr (Variable ''USER_INPUT'' ''string'' False 0 AnyNil [] False AnyNil),
            VariablePtr (Variable ''CONVERSATION_NAME'' ''string'' False 0 AnyNil [] False
                           (AnyString ''Default''))],
         plainNode ''900001'' ''2'' []],
      CanvasEdges = [entryToExit], Versions = AnyNil\<rparr> \<and>
   Required (Variable ''USER_INPUT'' ''string'' False 0 AnyNil [] False (AnyNil :: unit any)) = False \<and>
   adaptToChatFlow exampleVo memRepo exampleService exampleEntity
     (stateWithDraft (testedDraft ''A'' True ''4'') 5) 7 =
     Return (stateWithDraft (testedDraft ''A-chat'' True ''5'') 6)"
  using adaptCanvasToChatFlow_example adaptToChatFlow_example
  by (simp add: canvasAChat_def)


section \<open>The canvas compiler (package adaptor)\<close>

subsection \<open>\<^verbatim>\<open>PruneIsolatedNodes\<close>\<close>





subsection \<open>Node adaptation\<close>


text \<open>
  A call that may not return: \<open>None\<close> stands for no result. \<open>andThen\<close> runs the next step
  on a returned value and passes on an error, a panic and the absence of a result.
\<close>

definition andThen :: "'x outcome option \<Rightarrow> ('x \<Rightarrow> 'y outcome option) \<Rightarrow> 'y outcome option" where
  "andThen m f =
     (case m of
        None \<Rightarrow> None
      | Some (Return x) \<Rightarrow> f x
      | Some (Fail err) \<Rightarrow> Some (Fail err)
      | Some (Panic p) \<Rightarrow> Some (Panic p))"










subsection \<open>\<^verbatim>\<open>CanvasToWorkflowSchema\<close>\<close>






subsection \<open>What the result depends on\<close>

lemma andThen_simps [simp]:
  "andThen None f = None"
  "andThen (Some (Return x)) f = f x"
  "andThen (Some (Fail err)) f = Some (Fail err)"
  "andThen (Some (Panic p)) f = Some (Panic p)"
  by (simp_all add: andThen_def)














subsection \<open>Example environments\<close>






















subsection \<open>What isolation pruning checks\<close>





















end
